theory Spec2Isabelle
  imports Complex_Main "HOL-Library.Word"
begin

section \<open>Numbers of the host language\<close>

text \<open>
  The program is TypeScript: every \<open>number\<close> is a floating-point value. The development
  reads numbers as real numbers (rounding is not modelled). The one special value the
  analysis code can produce is \<open>NaN\<close>: reading a typed array outside its bounds gives
  \<open>undefined\<close>, which \<open>+=\<close> turns into \<open>NaN\<close>, and \<open>0 / 0\<close> is \<open>NaN\<close>. Neither raises.
\<close>

datatype jsnum = NaN | Num real

fun js_add :: "jsnum \<Rightarrow> jsnum \<Rightarrow> jsnum" where
  "js_add (Num a) (Num b) = Num (a + b)"
| "js_add _ _ = NaN"

type_synonym uint8 = "8 word"

section \<open>AudioAnalyzer: band levels and overall level\<close>

text \<open>
  \<open>frequencyData\<close> is a \<open>Uint8Array\<close>: a list of bytes, and \<open>sample_value\<close> is the number
  a byte stands for. A band range is a pair of integers (bin indices). \<open>typed_read\<close> is the
  element read \<open>this.frequencyData[i]\<close> as it enters a sum: a number inside the bounds,
  \<open>NaN\<close> outside.
\<close>

definition sample_value :: "uint8 \<Rightarrow> real" where
  "sample_value x = real (unat x)"

definition typed_read :: "uint8 list \<Rightarrow> int \<Rightarrow> jsnum" where
  "typed_read fd i =
     (if 0 \<le> i \<and> i < int (length fd) then Num (sample_value (fd ! nat i)) else NaN)"

text \<open>
  The loop of \<open>calculateBandLevel\<close>:
  \<^verbatim>\<open>for (let i = start; i < end && i < this.frequencyData.length; i++) sum += this.frequencyData[i];\<close>
\<close>

function band_loop :: "uint8 list \<Rightarrow> int \<Rightarrow> int \<Rightarrow> jsnum \<Rightarrow> jsnum" where
  "band_loop fd en i acc =
     (if i < en \<and> i < int (length fd)
      then band_loop fd en (i + 1) (js_add acc (typed_read fd i))
      else acc)"
  by pat_completeness auto
termination
  by (relation "measure (\<lambda>(fd, en, i, acc). nat (min en (int (length fd)) - i))") auto

declare band_loop.simps [simp del]

text \<open>
  \<^verbatim>\<open>const count = end - start; ... return count > 0 ? (sum / count) / 255 : 0;\<close>
\<close>

definition calculateBandLevel :: "uint8 list \<Rightarrow> int \<times> int \<Rightarrow> jsnum" where
  "calculateBandLevel fd band =
     (case band of (start, en) \<Rightarrow>
        let total = band_loop fd en start (Num 0);
            count = en - start
        in if count > 0
           then (case total of NaN \<Rightarrow> NaN | Num s \<Rightarrow> Num ((s / real_of_int count) / 255))
           else Num 0)"

text \<open>
  \<open>calculateOverallLevel\<close>: the loop runs over every index of the array, so every read is
  inside the bounds; it is a fold. For an empty array the quotient is \<open>0 / 0\<close>.
\<close>

definition square_sum :: "uint8 list \<Rightarrow> real" where
  "square_sum fd = fold (\<lambda>x acc. acc + sample_value x * sample_value x) fd 0"

definition calculateOverallLevel :: "uint8 list \<Rightarrow> jsnum" where
  "calculateOverallLevel fd =
     (if length fd = 0 then NaN
      else Num (sqrt (square_sum fd / real (length fd)) / 255))"

record AudioAnalyzerConfig =
  fftSize :: nat
  bassRange :: "int \<times> int"
  midRange :: "int \<times> int"
  trebleRange :: "int \<times> int"

definition default_analyzer_config :: AudioAnalyzerConfig where
  "default_analyzer_config =
     \<lparr>fftSize = 2048, bassRange = (0, 10), midRange = (10, 100), trebleRange = (100, 512)\<rparr>"

record AudioFrequencyData =
  bassLevel :: jsnum
  midLevel :: jsnum
  trebleLevel :: jsnum
  overallLevel :: jsnum

text \<open>
  \<open>getFrequencyData\<close>: the argument is the content of \<open>frequencyData\<close> after the analyser
  node has filled it, or \<open>None\<close> when there is no analyser node.
\<close>

definition getFrequencyData :: "AudioAnalyzerConfig \<Rightarrow> uint8 list option \<Rightarrow> AudioFrequencyData" where
  "getFrequencyData cfg analysed =
     (case analysed of
        None \<Rightarrow> \<lparr>bassLevel = Num 0, midLevel = Num 0, trebleLevel = Num 0, overallLevel = Num 0\<rparr>
      | Some fd \<Rightarrow>
          \<lparr>bassLevel = calculateBandLevel fd (bassRange cfg),
           midLevel = calculateBandLevel fd (midRange cfg),
           trebleLevel = calculateBandLevel fd (trebleRange cfg),
           overallLevel = calculateOverallLevel fd\<rparr>)"

text \<open>The sum the band loop computes when it starts at a non-negative index.\<close>

definition band_sum :: "uint8 list \<Rightarrow> int \<Rightarrow> int \<Rightarrow> real" where
  "band_sum fd start en =
     (\<Sum>k = nat start..<nat (min en (int (length fd))). sample_value (fd ! k))"

text \<open>Reading a level as a value of the unit interval, and comparing two levels.\<close>

fun in_unit :: "jsnum \<Rightarrow> bool" where
  "in_unit NaN = False"
| "in_unit (Num r) = (0 \<le> r \<and> r \<le> 1)"

fun js_le :: "jsnum \<Rightarrow> jsnum \<Rightarrow> bool" where
  "js_le (Num a) (Num b) = (a \<le> b)"
| "js_le _ _ = False"

definition three_band_mean :: "AudioFrequencyData \<Rightarrow> jsnum" where
  "three_band_mean d =
     (case js_add (js_add (bassLevel d) (midLevel d)) (trebleLevel d) of
        NaN \<Rightarrow> NaN | Num s \<Rightarrow> Num (s / 3))"

text \<open>A frame of 16 bins (\<open>fftSize = 32\<close>) with one saturated bin.\<close>

definition frame16 :: "uint8 list" where
  "frame16 = [255, 0, 0, 0, 0, 0, 0, 0, 0, 0, 0, 0, 0, 0, 0, 0]"

section \<open>PerformanceLOD: the quality controller\<close>

record LODLevel =
  name :: string
  particleCount :: nat
  geometrySegments :: nat
  enableComplexShaders :: bool
  enablePostProcessing :: bool
  targetFPS :: real

record PerformanceMetrics =
  fps :: real
  frameTime :: real
  memoryUsage :: real
  audioLatency :: real

text \<open>
  The object state: the current level, the fps history, and \<open>notified\<close>, the levels the
  change callback has been called with, in order (the callback is the only effect that
  leaves the object).
\<close>

record PerformanceLOD =
  currentLOD :: LODLevel
  performanceHistory :: "real list"
  notified :: "LODLevel list"

text \<open>The table the constructor builds, from lowest to highest quality.\<close>

definition lodLevels :: "LODLevel list" where
  "lodLevels =
     [\<lparr>name = ''Potato'', particleCount = 100, geometrySegments = 8,
       enableComplexShaders = False, enablePostProcessing = False, targetFPS = 30\<rparr>,
      \<lparr>name = ''Low'', particleCount = 300, geometrySegments = 16,
       enableComplexShaders = False, enablePostProcessing = False, targetFPS = 45\<rparr>,
      \<lparr>name = ''Medium'', particleCount = 600, geometrySegments = 24,
       enableComplexShaders = True, enablePostProcessing = False, targetFPS = 55\<rparr>,
      \<lparr>name = ''High'', particleCount = 1000, geometrySegments = 32,
       enableComplexShaders = True, enablePostProcessing = True, targetFPS = 58\<rparr>,
      \<lparr>name = ''Ultra'', particleCount = 2000, geometrySegments = 48,
       enableComplexShaders = True, enablePostProcessing = True, targetFPS = 60\<rparr>]"

definition maxHistoryLength :: nat where
  "maxHistoryLength = 60"

text \<open>The constructor starts at \<open>lodLevels[2]\<close> with an empty history.\<close>

definition new_PerformanceLOD :: PerformanceLOD where
  "new_PerformanceLOD = \<lparr>currentLOD = lodLevels ! 2, performanceHistory = [], notified = []\<rparr>"

text \<open>
  \<open>Array.prototype.indexOf\<close>: the first index holding the element, \<open>-1\<close> when there is
  none. The five levels are five different objects with different contents, so comparing
  contents is comparing references.
\<close>

fun indexOf :: "'a list \<Rightarrow> 'a \<Rightarrow> int" where
  "indexOf [] x = - 1"
| "indexOf (y # ys) x =
     (if y = x then 0 else (let r = indexOf ys x in if r < 0 then - 1 else r + 1))"

text \<open>\<open>xs.slice(-n)\<close>: the last \<open>n\<close> elements, all of them when there are fewer.\<close>

definition slice_last :: "nat \<Rightarrow> 'a list \<Rightarrow> 'a list" where
  "slice_last n xs = drop (length xs - n) xs"

text \<open>
  \<open>evaluateLODChange\<close> is private and called from \<open>updatePerformance\<close> only, with at least
  30 samples in the history, so the division is by 30.
\<close>

definition evaluateLODChange :: "PerformanceLOD \<Rightarrow> PerformanceLOD" where
  "evaluateLODChange s =
     (let recentFPS = slice_last 30 (performanceHistory s);
          avgFPS = fold (\<lambda>fps acc. acc + fps) recentFPS 0 / real (length recentFPS);
          currentIndex = indexOf lodLevels (currentLOD s);
          newLODIndex =
            (if avgFPS < targetFPS (currentLOD s) - 5 \<and> currentIndex > 0
             then max 0 (currentIndex - 1)
             else if avgFPS > targetFPS (currentLOD s) + 3
                     \<and> currentIndex < int (length lodLevels) - 1
             then min (int (length lodLevels) - 1) (currentIndex + 1)
             else currentIndex)
      in if newLODIndex \<noteq> currentIndex
         then (let newLOD = lodLevels ! nat newLODIndex
               in s\<lparr>currentLOD := newLOD, notified := notified s @ [newLOD]\<rparr>)
         else s)"

definition updatePerformance :: "PerformanceLOD \<Rightarrow> PerformanceMetrics \<Rightarrow> PerformanceLOD" where
  "updatePerformance s metrics =
     (let pushed = performanceHistory s @ [fps metrics];
          shifted = (if length pushed > maxHistoryLength then tl pushed else pushed);
          s' = s\<lparr>performanceHistory := shifted\<rparr>
      in if length shifted \<ge> 30 then evaluateLODChange s' else s')"

definition setLOD :: "PerformanceLOD \<Rightarrow> string \<Rightarrow> PerformanceLOD" where
  "setLOD s lodName =
     (case find (\<lambda>lod. name lod = lodName) lodLevels of
        None \<Rightarrow> s
      | Some newLOD \<Rightarrow>
          if newLOD \<noteq> currentLOD s
          then s\<lparr>currentLOD := newLOD, notified := notified s @ [newLOD]\<rparr>
          else s)"

text \<open>A run of \<open>updatePerformance\<close> calls, one per element of the list.\<close>

definition feed :: "PerformanceLOD \<Rightarrow> PerformanceMetrics list \<Rightarrow> PerformanceLOD" where
  "feed s ms = foldl updatePerformance s ms"

definition metrics_of_fps :: "real \<Rightarrow> PerformanceMetrics" where
  "metrics_of_fps f = \<lparr>fps = f, frameTime = 1000 / f, memoryUsage = 0, audioLatency = 0\<rparr>"

text \<open>
  The vocabulary of the transition rule: the index of the current level in the table,
  the history after a sample is appended (the oldest sample leaves once there are more
  than 60), and the mean of the 30 most recent samples.
\<close>

definition tier_index :: "PerformanceLOD \<Rightarrow> int" where
  "tier_index s = indexOf lodLevels (currentLOD s)"

definition pushed_history :: "PerformanceLOD \<Rightarrow> real \<Rightarrow> real list" where
  "pushed_history s f =
     (if length (performanceHistory s) \<ge> 60 then tl (performanceHistory s @ [f])
      else performanceHistory s @ [f])"

definition recent_mean :: "real list \<Rightarrow> real" where
  "recent_mean h = sum_list (drop (length h - 30) h) / 30"

section \<open>DeviceCapabilities: the device profiler\<close>

datatype GpuTier = GpuLow | GpuMedium | GpuHigh

record DeviceInfo =
  isMobile :: bool
  isTablet :: bool
  isLowEnd :: bool
  hasWebGL2 :: bool
  hasHighDPI :: bool
  maxTextureSize :: nat
  gpuTier :: GpuTier
  memoryGB :: real
  cores :: nat

record QualitySettings =
  qs_particleCount :: nat
  qs_geometrySegments :: nat
  qs_enableComplexShaders :: bool
  qs_enablePostProcessing :: bool
  shadowMapSize :: nat
  maxAnisotropy :: nat
  pixelRatio :: real

text \<open>
  What \<open>detectDeviceInfo\<close> has read from the browser when it reaches the low-end test: the
  outcome of the two user-agent tests, the core count and the memory estimate (after their
  defaults), the texture size and the GPU tier found from the WebGL context, whether a
  WebGL2 context exists, and \<open>window.devicePixelRatio\<close>.
\<close>

record HostSignals =
  ua_isMobile :: bool
  ua_isTablet :: bool
  host_cores :: nat
  host_memoryGB :: real
  host_maxTextureSize :: nat
  host_gpuTier :: GpuTier
  host_webgl2 :: bool
  devicePixelRatio :: real

definition detectDeviceInfo :: "HostSignals \<Rightarrow> DeviceInfo" where
  "detectDeviceInfo h =
     (let lowEnd =
            ((ua_isMobile h \<and> host_cores h \<le> 2 \<and> host_memoryGB h \<le> 2)
             \<or> host_gpuTier h = GpuLow \<or> host_maxTextureSize h < 4096)
      in \<lparr>isMobile = ua_isMobile h,
          isTablet = ua_isTablet h,
          isLowEnd = lowEnd,
          hasWebGL2 = host_webgl2 h,
          hasHighDPI = (devicePixelRatio h > 1.5),
          maxTextureSize = host_maxTextureSize h,
          gpuTier = host_gpuTier h,
          memoryGB = host_memoryGB h,
          cores = host_cores h\<rparr>)"

text \<open>
  \<open>determineQualitySettings\<close> reads \<open>this.deviceInfo\<close> and, in its last two branches,
  \<open>window.devicePixelRatio\<close>. The returns are in the order of the source.
\<close>

definition determineQualitySettings :: "DeviceInfo \<Rightarrow> real \<Rightarrow> QualitySettings" where
  "determineQualitySettings info dpr =
     (if isLowEnd info then
        \<lparr>qs_particleCount = 200, qs_geometrySegments = 8,
         qs_enableComplexShaders = False, qs_enablePostProcessing = False,
         shadowMapSize = 512, maxAnisotropy = 1, pixelRatio = 1\<rparr>
      else if isMobile info then
        \<lparr>qs_particleCount = 500, qs_geometrySegments = 16,
         qs_enableComplexShaders = False, qs_enablePostProcessing = False,
         shadowMapSize = 1024, maxAnisotropy = 2,
         pixelRatio = (if hasHighDPI info then 2 else 1)\<rparr>
      else if gpuTier info = GpuHigh then
        \<lparr>qs_particleCount = 2000, qs_geometrySegments = 64,
         qs_enableComplexShaders = True, qs_enablePostProcessing = True,
         shadowMapSize = 2048, maxAnisotropy = 16, pixelRatio = min dpr 2\<rparr>
      else
        \<lparr>qs_particleCount = 1000, qs_geometrySegments = 32,
         qs_enableComplexShaders = True, qs_enablePostProcessing = False,
         shadowMapSize = 1024, maxAnisotropy = 4, pixelRatio = min dpr 2\<rparr>)"

text \<open>The constructor: detect, then decide.\<close>

definition new_DeviceCapabilities :: "HostSignals \<Rightarrow> DeviceInfo \<times> QualitySettings" where
  "new_DeviceCapabilities h =
     (let info = detectDeviceInfo h
      in (info, determineQualitySettings info (devicePixelRatio h)))"

definition getQualitySettings :: "DeviceInfo \<times> QualitySettings \<Rightarrow> QualitySettings" where
  "getQualitySettings d = snd d"

text \<open>
  The decision table as it is described: its first condition on the host signals, and its
  four rows from lowest to highest fidelity. The pixel ratio of a row is a parameter where
  it depends on the device.
\<close>

definition low_end :: "HostSignals \<Rightarrow> bool" where
  "low_end h \<longleftrightarrow>
     (ua_isMobile h \<and> host_cores h \<le> 2 \<and> host_memoryGB h \<le> 2)
     \<or> host_gpuTier h = GpuLow \<or> host_maxTextureSize h < 4096"

definition lowest_tier :: QualitySettings where
  "lowest_tier =
     \<lparr>qs_particleCount = 200, qs_geometrySegments = 8,
      qs_enableComplexShaders = False, qs_enablePostProcessing = False,
      shadowMapSize = 512, maxAnisotropy = 1, pixelRatio = 1\<rparr>"

definition second_lowest_tier :: "real \<Rightarrow> QualitySettings" where
  "second_lowest_tier ratio =
     \<lparr>qs_particleCount = 500, qs_geometrySegments = 16,
      qs_enableComplexShaders = False, qs_enablePostProcessing = False,
      shadowMapSize = 1024, maxAnisotropy = 2, pixelRatio = ratio\<rparr>"

definition middle_tier :: "real \<Rightarrow> QualitySettings" where
  "middle_tier ratio =
     \<lparr>qs_particleCount = 1000, qs_geometrySegments = 32,
      qs_enableComplexShaders = True, qs_enablePostProcessing = False,
      shadowMapSize = 1024, maxAnisotropy = 4, pixelRatio = ratio\<rparr>"

definition highest_tier :: "real \<Rightarrow> QualitySettings" where
  "highest_tier ratio =
     \<lparr>qs_particleCount = 2000, qs_geometrySegments = 64,
      qs_enableComplexShaders = True, qs_enablePostProcessing = True,
      shadowMapSize = 2048, maxAnisotropy = 16, pixelRatio = ratio\<rparr>"

definition recommended :: "HostSignals \<Rightarrow> QualitySettings" where
  "recommended h = getQualitySettings (new_DeviceCapabilities h)"

text \<open>A phone with a high-density screen, and variations of it.\<close>

definition phone :: HostSignals where
  "phone = \<lparr>ua_isMobile = True, ua_isTablet = False, host_cores = 8, host_memoryGB = 4,
            host_maxTextureSize = 8192, host_gpuTier = GpuMedium, host_webgl2 = True,
            devicePixelRatio = 3\<rparr>"

section \<open>VisualizerEngine: the reactive scene\<close>

text \<open>
  A vertex or particle buffer is a \<open>Float32Array\<close> of length \<open>3 n\<close> read three floats at a
  time (a buffer attribute of item size 3); it is modelled as the list of its \<open>n\<close> triples.
\<close>

type_synonym vec3 = "real \<times> real \<times> real"

record VisualizerConfig =
  cfg_geometrySegments :: nat
  cfg_particleCount :: nat
  morphingIntensity :: real
  colorSaturation :: real
  enableWireframe :: bool

text \<open>\<open>Partial<VisualizerConfig>\<close>: each field is present or absent.\<close>

record PartialConfig =
  set_geometrySegments :: "nat option"
  set_particleCount :: "nat option"
  set_morphingIntensity :: "real option"
  set_colorSaturation :: "real option"
  set_enableWireframe :: "bool option"

text \<open>The four levels of an \<open>AudioFrequencyData\<close> whose levels are numbers.\<close>

record AudioLevels =
  bass :: real
  mid :: real
  treble :: real
  overall :: real

record VisualizerEngine =
  config :: VisualizerConfig
  originalVertices :: "vec3 list"
  meshPositions :: "vec3 list"
  particlePositions :: "vec3 list"
  particleVelocities :: "vec3 list"
  isAnimating :: bool

text \<open>The object spread \<open>{ ...base, ...changes }\<close>.\<close>

definition spread :: "VisualizerConfig \<Rightarrow> PartialConfig \<Rightarrow> VisualizerConfig" where
  "spread base changes =
     \<lparr>cfg_geometrySegments =
        (case set_geometrySegments changes of None \<Rightarrow> cfg_geometrySegments base | Some v \<Rightarrow> v),
      cfg_particleCount =
        (case set_particleCount changes of None \<Rightarrow> cfg_particleCount base | Some v \<Rightarrow> v),
      morphingIntensity =
        (case set_morphingIntensity changes of None \<Rightarrow> morphingIntensity base | Some v \<Rightarrow> v),
      colorSaturation =
        (case set_colorSaturation changes of None \<Rightarrow> colorSaturation base | Some v \<Rightarrow> v),
      enableWireframe =
        (case set_enableWireframe changes of None \<Rightarrow> enableWireframe base | Some v \<Rightarrow> v)\<rparr>"

definition no_changes :: PartialConfig where
  "no_changes =
     \<lparr>set_geometrySegments = None, set_particleCount = None, set_morphingIntensity = None,
      set_colorSaturation = None, set_enableWireframe = None\<rparr>"

text \<open>
  The point \<open>(r sin \<phi> cos \<theta>, r sin \<phi> sin \<theta>, r cos \<phi>)\<close>, which the source writes out both where
  it places a particle first and where it resets one.
\<close>

definition spherical :: "real \<Rightarrow> real \<Rightarrow> real \<Rightarrow> vec3" where
  "spherical radius theta phi =
     (radius * sin phi * cos theta, radius * sin phi * sin theta, radius * cos phi)"

text \<open>
  \<open>Math.random()\<close> is a stream of draws \<open>rnd k, rnd (k + 1), \<dots>\<close>; a function that draws
  takes the index of the next draw and returns the index after its last one.

  \<open>setupMainGeometry\<close>: the positions of the icosahedron come from the graphics library
  and are a parameter; \<open>originalVertices\<close> is a copy of them.
\<close>

definition setupMainGeometry :: "VisualizerEngine \<Rightarrow> vec3 list \<Rightarrow> VisualizerEngine" where
  "setupMainGeometry e icosahedron =
     e\<lparr>meshPositions := icosahedron, originalVertices := icosahedron\<rparr>"

text \<open>
  \<open>setupParticleSystem\<close>: every turn of its loop draws nine numbers (radius, theta, phi,
  three velocity components, two colour components, one size), so particle \<open>i\<close> starts at
  draw \<open>k + 9 i\<close>.
\<close>

definition initial_position :: "(nat \<Rightarrow> real) \<Rightarrow> nat \<Rightarrow> vec3" where
  "initial_position rnd k =
     (let radius = 3 + rnd k * 2;
          theta = rnd (k + 1) * pi * 2;
          phi = arccos (2 * rnd (k + 2) - 1)
      in spherical radius theta phi)"

definition initial_velocity :: "(nat \<Rightarrow> real) \<Rightarrow> nat \<Rightarrow> vec3" where
  "initial_velocity rnd k =
     ((rnd (k + 3) - 0.5) * 0.02, (rnd (k + 4) - 0.5) * 0.02, (rnd (k + 5) - 0.5) * 0.02)"

definition setupParticleSystem ::
  "VisualizerEngine \<Rightarrow> (nat \<Rightarrow> real) \<Rightarrow> nat \<Rightarrow> VisualizerEngine \<times> nat" where
  "setupParticleSystem e rnd k =
     (let n = cfg_particleCount (config e)
      in (e\<lparr>particlePositions := map (\<lambda>i. initial_position rnd (k + 9 * i)) [0..<n],
            particleVelocities := map (\<lambda>i. initial_velocity rnd (k + 9 * i)) [0..<n]\<rparr>,
          k + 9 * n))"

text \<open>
  The constructor: the device's recommended settings give the defaults, the caller's
  configuration overrides them, then the mesh and the particles are set up.
\<close>

definition new_VisualizerEngine ::
  "QualitySettings \<Rightarrow> PartialConfig \<Rightarrow> (nat \<Rightarrow> vec3 list) \<Rightarrow> (nat \<Rightarrow> real) \<Rightarrow> nat
   \<Rightarrow> VisualizerEngine \<times> nat" where
  "new_VisualizerEngine deviceQuality userConfig icosahedronGeometry rnd k =
     (let cfg = spread \<lparr>cfg_geometrySegments = qs_geometrySegments deviceQuality,
                       cfg_particleCount = qs_particleCount deviceQuality,
                       morphingIntensity = 1.0, colorSaturation = 0.8,
                       enableWireframe = False\<rparr> userConfig;
          e0 = \<lparr>config = cfg, originalVertices = [], meshPositions = [],
                particlePositions = [], particleVelocities = [], isAnimating = False\<rparr>;
          e1 = setupMainGeometry e0 (icosahedronGeometry (cfg_geometrySegments cfg))
      in setupParticleSystem e1 rnd k)"

subsection \<open>Mesh morphing\<close>

definition multiplyScalar :: "vec3 \<Rightarrow> real \<Rightarrow> vec3" where
  "multiplyScalar v s = (case v of (x, y, z) \<Rightarrow> (x * s, y * s, z * s))"

text \<open>
  The scalar one turn of the loop of \<open>updateGeometryMorphing\<close> computes for the vertex
  \<open>vertexIndex\<close> of \<open>vertexCount\<close> vertices.
\<close>

definition displacement :: "VisualizerConfig \<Rightarrow> AudioLevels \<Rightarrow> real \<Rightarrow> nat \<Rightarrow> nat \<Rightarrow> real" where
  "displacement cfg audioData time vertexIndex vertexCount =
     (let bassIntensity = bass audioData * morphingIntensity cfg;
          midIntensity = mid audioData * morphingIntensity cfg;
          trebleIntensity = treble audioData * morphingIntensity cfg;
          normalizedIndex = real vertexIndex / real vertexCount;
          d = 1.0;
          d = (if normalizedIndex < 0.33 then d + bassIntensity * 0.5
               else if normalizedIndex < 0.66 then d + midIntensity * 0.3
               else d + trebleIntensity * 0.4);
          timeOffset = time * 2 + real vertexIndex * 0.1
      in d + sin timeOffset * overall audioData * 0.1)"

text \<open>
  The loop over the vertices of the position array. \<open>originalVertices\<close> has the length of
  the position array (it is a copy made when the mesh is built), so the read is in range.
\<close>

function morph_loop ::
  "VisualizerConfig \<Rightarrow> AudioLevels \<Rightarrow> real \<Rightarrow> vec3 list \<Rightarrow> nat \<Rightarrow> vec3 list \<Rightarrow> vec3 list" where
  "morph_loop cfg audioData time original i positionArray =
     (if i < length positionArray
      then morph_loop cfg audioData time original (i + 1)
             (positionArray[i := multiplyScalar (original ! i)
                (displacement cfg audioData time i (length positionArray))])
      else positionArray)"
  by pat_completeness auto
termination
  by (relation "measure (\<lambda>(cfg, audioData, time, original, i, positionArray).
        length positionArray - i)") auto

declare morph_loop.simps [simp del]

definition updateGeometryMorphing ::
  "VisualizerEngine \<Rightarrow> AudioLevels \<Rightarrow> real \<Rightarrow> VisualizerEngine" where
  "updateGeometryMorphing e audioData time =
     e\<lparr>meshPositions :=
         morph_loop (config e) audioData time (originalVertices e) 0 (meshPositions e)\<rparr>"

subsection \<open>Particles\<close>

definition distance :: "vec3 \<Rightarrow> real" where
  "distance p = (case p of (x, y, z) \<Rightarrow> sqrt (x * x + y * y + z * z))"

text \<open>The velocity after the random force and the damping (draws \<open>k\<close>, \<open>k + 1\<close>, \<open>k + 2\<close>).\<close>

definition forced_velocity :: "AudioLevels \<Rightarrow> real \<Rightarrow> (nat \<Rightarrow> real) \<Rightarrow> nat \<Rightarrow> vec3 \<Rightarrow> vec3" where
  "forced_velocity audioData deltaTime rnd k v =
     (case v of (vx, vy, vz) \<Rightarrow>
        let audioForce = overall audioData * 0.1
        in ((vx + (rnd k - 0.5) * audioForce * deltaTime) * 0.99,
            (vy + (rnd (k + 1) - 0.5) * audioForce * deltaTime) * 0.99,
            (vz + (rnd (k + 2) - 0.5) * audioForce * deltaTime) * 0.99))"

definition integrated :: "vec3 \<Rightarrow> vec3 \<Rightarrow> vec3" where
  "integrated p v = (case (p, v) of ((x, y, z), (vx, vy, vz)) \<Rightarrow> (x + vx, y + vy, z + vz))"

text \<open>The reset of a particle to the inner sphere (draws \<open>k\<close>, \<open>k + 1\<close>, \<open>k + 2\<close>).\<close>

definition reset_position :: "(nat \<Rightarrow> real) \<Rightarrow> nat \<Rightarrow> vec3" where
  "reset_position rnd k =
     (let resetRadius = 3 + rnd k;
          theta = rnd (k + 1) * pi * 2;
          phi = arccos (2 * rnd (k + 2) - 1)
      in spherical resetRadius theta phi)"

text \<open>
  One turn of the loop of \<open>updateParticleSystem\<close> on a particle's position and velocity:
  force and damping, integration, boundary check.
\<close>

definition particle_step ::
  "AudioLevels \<Rightarrow> real \<Rightarrow> (nat \<Rightarrow> real) \<Rightarrow> nat \<Rightarrow> vec3 \<times> vec3 \<Rightarrow> (vec3 \<times> vec3) \<times> nat" where
  "particle_step audioData deltaTime rnd k pv =
     (case pv of (p, v) \<Rightarrow>
        let v' = forced_velocity audioData deltaTime rnd k v;
            p' = integrated p v'
        in if distance p' > 8
           then ((reset_position rnd (k + 3), v'), k + 6)
           else ((p', v'), k + 3))"

text \<open>
  The loop runs \<open>config.particleCount\<close> times. Both buffers are allocated together with the
  same particle count, so an index is inside both or outside both; outside, the reads give
  \<open>undefined\<close>, the writes are dropped, and only the three draws of the force happen.
\<close>

function particle_loop ::
  "AudioLevels \<Rightarrow> real \<Rightarrow> (nat \<Rightarrow> real) \<Rightarrow> nat \<Rightarrow> nat \<Rightarrow> vec3 list \<times> vec3 list \<times> nat
   \<Rightarrow> vec3 list \<times> vec3 list \<times> nat" where
  "particle_loop audioData deltaTime rnd n i (pos, vel, k) =
     (if i < n
      then (if i < length pos \<and> i < length vel
            then (case particle_step audioData deltaTime rnd k (pos ! i, vel ! i) of
                    ((p', v'), k') \<Rightarrow>
                      particle_loop audioData deltaTime rnd n (i + 1)
                        (pos[i := p'], vel[i := v'], k'))
            else particle_loop audioData deltaTime rnd n (i + 1) (pos, vel, k + 3))
      else (pos, vel, k))"
  by pat_completeness auto
termination
  by (relation "measure (\<lambda>(audioData, deltaTime, rnd, n, i, s). n - i)") auto

declare particle_loop.simps [simp del]

definition updateParticleSystem ::
  "VisualizerEngine \<Rightarrow> AudioLevels \<Rightarrow> real \<Rightarrow> (nat \<Rightarrow> real) \<Rightarrow> nat \<Rightarrow> VisualizerEngine \<times> nat" where
  "updateParticleSystem e audioData deltaTime rnd k =
     (case particle_loop audioData deltaTime rnd (cfg_particleCount (config e)) 0
             (particlePositions e, particleVelocities e, k) of
        (pos, vel, k') \<Rightarrow> (e\<lparr>particlePositions := pos, particleVelocities := vel\<rparr>, k'))"

text \<open>
  \<open>updateVisualization\<close>: the per-frame update. The material and camera updates between and
  after the two buffer updates touch no buffer and are left out.
\<close>

definition updateVisualization ::
  "VisualizerEngine \<Rightarrow> AudioLevels \<Rightarrow> real \<Rightarrow> real \<Rightarrow> (nat \<Rightarrow> real) \<Rightarrow> nat
   \<Rightarrow> VisualizerEngine \<times> nat" where
  "updateVisualization e audioData deltaTime elapsedTime rnd k =
     (if \<not> isAnimating e then (e, k)
      else updateParticleSystem (updateGeometryMorphing e audioData elapsedTime)
             audioData deltaTime rnd k)"

definition startAnimation :: "VisualizerEngine \<Rightarrow> VisualizerEngine" where
  "startAnimation e = e\<lparr>isAnimating := True\<rparr>"

definition stopAnimation :: "VisualizerEngine \<Rightarrow> VisualizerEngine" where
  "stopAnimation e = e\<lparr>isAnimating := False\<rparr>"

definition toggleWireframe :: "VisualizerEngine \<Rightarrow> VisualizerEngine" where
  "toggleWireframe e =
     e\<lparr>config := (config e)\<lparr>enableWireframe := \<not> enableWireframe (config e)\<rparr>\<rparr>"

definition updateConfig :: "VisualizerEngine \<Rightarrow> PartialConfig \<Rightarrow> VisualizerEngine" where
  "updateConfig e newConfig = e\<lparr>config := spread (config e) newConfig\<rparr>"

definition getParticleCount :: "VisualizerEngine \<Rightarrow> nat" where
  "getParticleCount e = cfg_particleCount (config e)"

definition getVertexCount :: "VisualizerEngine \<Rightarrow> nat" where
  "getVertexCount e = length (meshPositions e)"

subsection \<open>Vocabulary of the statements and test scenes\<close>

text \<open>The region term of a vertex with normalized index \<open>u\<close>.\<close>

definition region_term :: "VisualizerConfig \<Rightarrow> AudioLevels \<Rightarrow> real \<Rightarrow> real" where
  "region_term cfg a u =
     (if u < 0.33 then bass a * morphingIntensity cfg * 0.5
      else if u < 0.66 then mid a * morphingIntensity cfg * 0.3
      else treble a * morphingIntensity cfg * 0.4)"

text \<open>
  The displacement as the mesh claim states it, with the ripple phase \<open>2 elapsed + 10 u\<close>;
  it is compared with \<open>displacement\<close>, which is the source's.
\<close>

definition claimed_displacement :: "VisualizerConfig \<Rightarrow> AudioLevels \<Rightarrow> real \<Rightarrow> real \<Rightarrow> real" where
  "claimed_displacement cfg a elapsed u =
     1 + region_term cfg a u + sin (2 * elapsed + u * 10) * overall a * 0.1"

text \<open>A mesh of ten vertices, all at \<open>(1, 0, 0)\<close>, and a frame that is only loud.\<close>

definition ten_vertices :: VisualizerEngine where
  "ten_vertices =
     \<lparr>config = \<lparr>cfg_geometrySegments = 1, cfg_particleCount = 0, morphingIntensity = 1,
                colorSaturation = 0.8, enableWireframe = False\<rparr>,
      originalVertices = replicate 10 (1, 0, 0),
      meshPositions = replicate 10 (1, 0, 0),
      particlePositions = [], particleVelocities = [], isAnimating = True\<rparr>"

definition loud :: AudioLevels where
  "loud = \<lparr>bass = 0, mid = 0, treble = 0, overall = 1\<rparr>"

text \<open>
  A random source that always draws \<open>1/2\<close>, a silent frame, an engine holding one particle,
  an engine built by the constructor for 1000 particles, the configuration change of a tier
  with 50 particles, and the sizes of the four buffers of an engine.
\<close>

definition draws_half :: "nat \<Rightarrow> real" where
  "draws_half k = 1 / 2"

definition silence :: AudioLevels where
  "silence = \<lparr>bass = 0, mid = 0, treble = 0, overall = 0\<rparr>"

definition one_particle :: "vec3 \<Rightarrow> vec3 \<Rightarrow> VisualizerEngine" where
  "one_particle p v =
     \<lparr>config = \<lparr>cfg_geometrySegments = 1, cfg_particleCount = 1, morphingIntensity = 1,
                colorSaturation = 0.8, enableWireframe = False\<rparr>,
      originalVertices = [], meshPositions = [],
      particlePositions = [p], particleVelocities = [v], isAnimating = True\<rparr>"

definition triangle_mesh :: "nat \<Rightarrow> vec3 list" where
  "triangle_mesh segments = [(1.5, 0, 0), (0, 1.5, 0), (0, 0, 1.5)]"

definition scene1000 :: VisualizerEngine where
  "scene1000 = fst (new_VisualizerEngine (middle_tier 1) no_changes triangle_mesh draws_half 0)"

definition tier50 :: PartialConfig where
  "tier50 = no_changes\<lparr>set_particleCount := Some 50, set_geometrySegments := Some 8\<rparr>"

definition buffer_sizes :: "VisualizerEngine \<Rightarrow> nat \<times> nat \<times> nat \<times> nat" where
  "buffer_sizes e =
     (length (originalVertices e), length (meshPositions e),
      length (particlePositions e), length (particleVelocities e))"


section \<open>Facts about the band loop\<close>

lemma band_loop_NaN: "band_loop fd en i NaN = NaN"
proof (induction fd en i NaN rule: band_loop.induct)
  case (1 fd en i)
  then show ?case
    by (subst band_loop.simps) simp
qed

lemma band_loop_stop: "\<not> (i < en \<and> i < int (length fd)) \<Longrightarrow> band_loop fd en i s = s"
  by (subst band_loop.simps) auto

lemma band_loop_sum:
  "0 \<le> i \<Longrightarrow> band_loop fd en i (Num s) = Num (s + band_sum fd i en)"
proof (induction fd en i "Num s" arbitrary: s rule: band_loop.induct)
  case (1 fd en i)
  show ?case
  proof (cases "i < en \<and> i < int (length fd)")
    case True
    then have lt: "nat i < nat (min en (int (length fd)))"
      using "1.prems" by auto
    have rd: "typed_read fd i = Num (sample_value (fd ! nat i))"
      using True "1.prems" by (simp add: typed_read_def)
    have step: "band_loop fd en (i + 1) (Num (s + sample_value (fd ! nat i)))
                = Num (s + sample_value (fd ! nat i) + band_sum fd (i + 1) en)"
      using "1.hyps" [of "s + sample_value (fd ! nat i)"] True "1.prems" rd by simp
    have split: "band_sum fd i en = sample_value (fd ! nat i) + band_sum fd (i + 1) en"
      using lt "1.prems"
      by (simp add: band_sum_def sum.atLeast_Suc_lessThan nat_add_distrib)
    show ?thesis
      using True step split rd by (subst band_loop.simps) simp
  next
    case False
    then have "nat (min en (int (length fd))) \<le> nat i"
      using "1.prems" by auto
    then have "band_sum fd i en = 0"
      by (simp add: band_sum_def)
    then show ?thesis
      using False by (simp add: band_loop_stop)
  qed
qed

lemma band_level_nonneg_start:
  "0 \<le> start \<Longrightarrow>
   calculateBandLevel fd (start, en) =
     (if en - start > 0 then Num ((band_sum fd start en / real_of_int (en - start)) / 255)
      else Num 0)"
  by (simp add: calculateBandLevel_def band_loop_sum Let_def)

lemma sample_value_nonneg: "0 \<le> sample_value x"
  unfolding sample_value_def by (rule of_nat_0_le_iff)

lemma sample_value_le: "sample_value x \<le> 255"
proof -
  have "unat x \<le> 255"
    using unsigned_less [of x, where 'a = nat] by simp
  then have "real (unat x) \<le> real 255"
    by (rule of_nat_mono)
  then show ?thesis
    by (simp add: sample_value_def)
qed

lemma band_sum_nonneg: "0 \<le> band_sum fd start en"
  unfolding band_sum_def by (rule sum_nonneg) (simp add: sample_value_nonneg)

lemma band_sum_le: "0 \<le> start \<Longrightarrow> start < en \<Longrightarrow> band_sum fd start en \<le> 255 * real_of_int (en - start)"
proof -
  assume a: "0 \<le> start" "start < en"
  let ?m = "nat (min en (int (length fd)))"
  have "band_sum fd start en \<le> (\<Sum>k = nat start..<?m. (255::real))"
    unfolding band_sum_def
    by (rule sum_mono) (simp add: sample_value_le)
  also have "\<dots> = 255 * real (?m - nat start)"
    by simp
  also have "\<dots> \<le> 255 * real_of_int (en - start)"
    using a by (auto simp: min_def)
  finally show ?thesis .
qed

section \<open>Band levels on malformed ranges\<close>

lemma band_level_empty: "en \<le> start \<Longrightarrow> calculateBandLevel fd (start, en) = Num 0"
  by (simp add: calculateBandLevel_def Let_def)

lemma band_sum_beyond: "int (length fd) \<le> start \<Longrightarrow> band_sum fd start en = 0"
  by (simp add: band_sum_def)

lemma band_level_beyond:
  "int (length fd) \<le> start \<Longrightarrow> calculateBandLevel fd (start, en) = Num 0"
proof -
  assume a: "int (length fd) \<le> start"
  then have "0 \<le> start" by simp
  then show ?thesis
    using a by (simp add: band_level_nonneg_start band_sum_beyond)
qed

lemma band_level_negative_start:
  "start < 0 \<Longrightarrow> start < en \<Longrightarrow> calculateBandLevel fd (start, en) = NaN"
proof -
  assume a: "start < 0" "start < en"
  have "band_loop fd en start (Num 0) = band_loop fd en (start + 1) NaN"
    using a by (subst band_loop.simps) (simp add: typed_read_def)
  then show ?thesis
    using a by (simp add: calculateBandLevel_def band_loop_NaN Let_def)
qed

section \<open>The overall level and the bounds of the levels\<close>

lemma fold_add_sum_list:
  "fold (\<lambda>x acc. acc + f x) xs (a::real) = a + sum_list (map f xs)"
  by (induction xs arbitrary: a) simp_all

lemma square_sum_eq: "square_sum fd = (\<Sum>x\<leftarrow>fd. (sample_value x)\<^sup>2)"
  by (simp add: square_sum_def fold_add_sum_list power2_eq_square)

lemma square_sum_nonneg: "0 \<le> square_sum fd"
  unfolding square_sum_eq by (rule sum_list_nonneg) auto

lemma square_sum_le: "square_sum fd \<le> 255\<^sup>2 * real (length fd)"
proof (induction fd)
  case Nil
  then show ?case by (simp add: square_sum_eq)
next
  case (Cons x xs)
  have "(sample_value x)\<^sup>2 \<le> 255\<^sup>2"
    by (rule power_mono) (rule sample_value_le, rule sample_value_nonneg)
  then show ?case
    using Cons by (simp add: square_sum_eq algebra_simps)
qed

lemma square_sum_zero: "\<forall>x\<in>set fd. x = 0 \<Longrightarrow> square_sum fd = 0"
  by (induction fd) (simp_all add: square_sum_eq sample_value_def)

lemma overall_in_unit: "fd \<noteq> [] \<Longrightarrow> in_unit (calculateOverallLevel fd)"
proof -
  assume ne: "fd \<noteq> []"
  then have pos: "0 < real (length fd)" by simp
  have "square_sum fd / real (length fd) \<le> 255\<^sup>2"
    using square_sum_le [of fd] pos by (simp add: pos_divide_le_eq)
  then have "sqrt (square_sum fd / real (length fd)) \<le> sqrt (255\<^sup>2)"
    by (rule real_sqrt_le_mono)
  then have "sqrt (square_sum fd / real (length fd)) \<le> 255"
    by simp
  moreover have "0 \<le> sqrt (square_sum fd / real (length fd))"
    using square_sum_nonneg [of fd] by simp
  ultimately show ?thesis
    using ne by (simp add: calculateOverallLevel_def)
qed

lemma band_in_unit: "0 \<le> start \<Longrightarrow> in_unit (calculateBandLevel fd (start, en))"
proof (cases "start < en")
  case True
  assume s: "0 \<le> start"
  define q where "q = band_sum fd start en / real_of_int (en - start)"
  have pos: "0 < real_of_int (en - start)" using True by simp
  have "q \<le> 255"
    unfolding q_def using band_sum_le [OF s True, of fd] pos by (simp add: pos_divide_le_eq)
  moreover have "0 \<le> q"
    unfolding q_def using band_sum_nonneg [of fd start en] pos by simp
  moreover have "calculateBandLevel fd (start, en) = Num (q / 255)"
    unfolding q_def using s True by (simp only: band_level_nonneg_start) simp
  ultimately show ?thesis
    by simp
next
  case False
  then show ?thesis by (simp add: band_level_empty)
qed

lemma band_sum_mono_update:
  assumes "fd ! j \<le> v"
  shows "band_sum fd start en \<le> band_sum (fd[j := v]) start en"
proof -
  have "\<And>k. k < length fd \<Longrightarrow> sample_value (fd ! k) \<le> sample_value (fd[j := v] ! k)"
  proof -
    fix k assume k: "k < length fd"
    show "sample_value (fd ! k) \<le> sample_value (fd[j := v] ! k)"
    proof (cases "k = j")
      case True
      have "unat (fd ! j) \<le> unat v"
        using assms by (simp add: word_le_nat_alt)
      then have "real (unat (fd ! j)) \<le> real (unat v)"
        by (rule of_nat_mono)
      then show ?thesis
        using True k by (simp add: sample_value_def)
    next
      case False
      then show ?thesis by simp
    qed
  qed
  then have "(\<Sum>k = nat start..<nat (min en (int (length fd))). sample_value (fd ! k))
             \<le> (\<Sum>k = nat start..<nat (min en (int (length fd))). sample_value (fd[j := v] ! k))"
    by (intro sum_mono) auto
  then show ?thesis
    by (simp add: band_sum_def)
qed

lemma band_level_mono_update:
  assumes "0 \<le> start" "fd ! j \<le> v"
  shows "js_le (calculateBandLevel fd (start, en)) (calculateBandLevel (fd[j := v]) (start, en))"
proof (cases "start < en")
  case True
  then have pos: "0 < real_of_int (en - start)" by simp
  define q where "q = band_sum fd start en / real_of_int (en - start)"
  define q' where "q' = band_sum (fd[j := v]) start en / real_of_int (en - start)"
  have "q \<le> q'"
    unfolding q_def q'_def using band_sum_mono_update [OF assms(2), of start en] pos
    by (simp add: divide_right_mono)
  moreover have "calculateBandLevel fd (start, en) = Num (q / 255)"
    unfolding q_def using assms(1) True by (simp only: band_level_nonneg_start) simp
  moreover have "calculateBandLevel (fd[j := v]) (start, en) = Num (q' / 255)"
    unfolding q'_def using assms(1) True by (simp only: band_level_nonneg_start) simp
  ultimately show ?thesis
    by simp
next
  case False
  then show ?thesis by (simp add: band_level_empty)
qed


lemma sample_255: "sample_value 255 = 255"
  by (simp add: sample_value_def)

text \<open>
  Claim C6, as the code has it. The band level is a number for every frame and every range
  whose start is not negative (nothing in the function can raise; a negative start before
  the end reads outside the array and gives \<open>NaN\<close>). An empty or
  reversed range (\<open>end \<le> start\<close>) gives 0, and so does a range that starts at or beyond the
  end of the frame. A range that only ends beyond the frame is not 0: the samples that exist
  are summed and the sum is still divided by the full width \<open>end - start\<close>, so the missing
  samples count as zeros.
\<close>

theorem band_level_degrades:
  "(en \<le> start \<longrightarrow> calculateBandLevel fd (start, en) = Num 0)
   \<and> (int (length fd) \<le> start \<longrightarrow> calculateBandLevel fd (start, en) = Num 0)
   \<and> (0 \<le> start \<and> start < en \<longrightarrow>
        calculateBandLevel fd (start, en) =
          Num ((\<Sum>k = nat start..<min (nat en) (length fd). sample_value (fd ! k))
                 / real_of_int (en - start) / 255))
   \<and> (start < 0 \<and> start < en \<longrightarrow> calculateBandLevel fd (start, en) = NaN)"
proof (intro conjI impI)
  assume "en \<le> start"
  then show "calculateBandLevel fd (start, en) = Num 0"
    by (rule band_level_empty)
next
  assume "int (length fd) \<le> start"
  then show "calculateBandLevel fd (start, en) = Num 0"
    by (rule band_level_beyond)
next
  assume a: "0 \<le> start \<and> start < en"
  then have "nat (min en (int (length fd))) = min (nat en) (length fd)"
    by linarith
  then show "calculateBandLevel fd (start, en) =
          Num ((\<Sum>k = nat start..<min (nat en) (length fd). sample_value (fd ! k))
                 / real_of_int (en - start) / 255)"
    using a by (simp add: band_level_nonneg_start band_sum_def)
next
  assume "start < 0 \<and> start < en"
  then show "calculateBandLevel fd (start, en) = NaN"
    by (simp add: band_level_negative_start)
qed

theorem band_level_degrades_witness:
  "calculateBandLevel [255, 255] (5, 3) = Num 0
   \<and> calculateBandLevel [255, 255] (2, 6) = Num 0
   \<and> calculateBandLevel [255, 255] (0, 4) = Num (1 / 2)
   \<and> calculateBandLevel [255, 255] (- 1, 1) = NaN"
  using band_level_degrades [of 3 5 "[255, 255]"]
        band_level_degrades [of 6 2 "[255, 255]"]
        band_level_degrades [of 4 0 "[255, 255]"]
        band_level_degrades [of 1 "- 1" "[255, 255]"]
  by (simp add: sample_255 numeral_2_eq_2)

text \<open>
  Claim C6 as stated fails where the range leaves the frame only in part: on a frame of two
  saturated samples the range \<open>[0, 4)\<close> has value \<open>1/2\<close>, not 0.
\<close>

theorem band_level_partial_overrun_counterexample:
  "int (length [255, 255 :: uint8]) < 4
   \<and> calculateBandLevel [255, 255] (0, 4) = Num (1 / 2)
   \<and> calculateBandLevel [255, 255] (0, 4) \<noteq> Num 0"
  by (simp add: calculateBandLevel_def band_loop.simps typed_read_def sample_value_def)

lemma sqrt_frame16: "sqrt (65025 / 16) = 255 / 4"
  by (rule real_sqrt_unique) (simp_all add: power2_eq_square)

lemma frame16_levels:
  "calculateBandLevel frame16 (0, 10) = Num (1 / 10)"
  "calculateBandLevel frame16 (10, 100) = Num 0"
  "calculateBandLevel frame16 (100, 512) = Num 0"
  "calculateOverallLevel frame16 = Num (1 / 4)"
     apply (simp add: calculateBandLevel_def band_loop.simps typed_read_def sample_value_def frame16_def)
    apply (simp add: calculateBandLevel_def band_loop.simps typed_read_def sample_value_def frame16_def)
   apply (simp add: band_level_beyond frame16_def)
  apply (simp add: calculateOverallLevel_def square_sum_def sample_value_def frame16_def sqrt_frame16)
  done

text \<open>
  Claim C7. For every frame with at least one sample, the overall level is the root of the
  mean of the squared samples, divided by 255; for such a frame of zeros it is exactly 0 (the
  divisor is the frame length, which is not 0). It is not the mean of the three band levels:
  on the 16-bin frame with one saturated bin the two differ (1/4 against 1/30).
\<close>

theorem overall_is_rms:
  "(fd \<noteq> [] \<longrightarrow>
      calculateOverallLevel fd =
        Num (sqrt ((\<Sum>x\<leftarrow>fd. (sample_value x)\<^sup>2) / real (length fd)) / 255))
   \<and> (fd \<noteq> [] \<and> (\<forall>x\<in>set fd. x = 0) \<longrightarrow> calculateOverallLevel fd = Num 0)
   \<and> overallLevel (getFrequencyData default_analyzer_config (Some frame16))
        \<noteq> three_band_mean (getFrequencyData default_analyzer_config (Some frame16))"
proof (intro conjI impI)
  assume "fd \<noteq> []"
  then show "calculateOverallLevel fd =
        Num (sqrt ((\<Sum>x\<leftarrow>fd. (sample_value x)\<^sup>2) / real (length fd)) / 255)"
    by (simp add: calculateOverallLevel_def square_sum_eq)
next
  assume "fd \<noteq> [] \<and> (\<forall>x\<in>set fd. x = 0)"
  then show "calculateOverallLevel fd = Num 0"
    by (simp add: calculateOverallLevel_def square_sum_zero)
next
  show "overallLevel (getFrequencyData default_analyzer_config (Some frame16))
        \<noteq> three_band_mean (getFrequencyData default_analyzer_config (Some frame16))"
    by (simp add: getFrequencyData_def default_analyzer_config_def three_band_mean_def
          frame16_levels)
qed

theorem overall_is_rms_witness:
  "[3, 4 :: uint8] \<noteq> []
   \<and> calculateOverallLevel [3, 4] = Num (sqrt (25 / 2) / 255)
   \<and> calculateOverallLevel [0, 0] = Num 0"
  using overall_is_rms [of "[3, 4]"] overall_is_rms [of "[0, 0]"]
  by (simp add: sample_value_def)

text \<open>
  Claim C8. The samples of a frame are bytes, so they lie in \<open>[0, 255]\<close>. For a frame with
  at least one sample and band ranges that start at a non-negative index, the four levels
  \<open>getFrequencyData\<close> returns lie in \<open>[0, 1]\<close>. Raising one sample whose index lies in a
  band's range never lowers that band's level.
\<close>

theorem levels_bounded_monotone:
  "(fd \<noteq> [] \<and> 0 \<le> fst (bassRange cfg) \<and> 0 \<le> fst (midRange cfg) \<and> 0 \<le> fst (trebleRange cfg) \<longrightarrow>
      in_unit (bassLevel (getFrequencyData cfg (Some fd)))
      \<and> in_unit (midLevel (getFrequencyData cfg (Some fd)))
      \<and> in_unit (trebleLevel (getFrequencyData cfg (Some fd)))
      \<and> in_unit (overallLevel (getFrequencyData cfg (Some fd))))
   \<and> (0 \<le> start \<and> start \<le> int j \<and> int j < en \<and> fd ! j \<le> v \<longrightarrow>
        js_le (calculateBandLevel fd (start, en)) (calculateBandLevel (fd[j := v]) (start, en)))"
proof (intro conjI impI)
  assume a: "fd \<noteq> [] \<and> 0 \<le> fst (bassRange cfg) \<and> 0 \<le> fst (midRange cfg) \<and> 0 \<le> fst (trebleRange cfg)"
  show "in_unit (bassLevel (getFrequencyData cfg (Some fd)))"
    using a band_in_unit [of "fst (bassRange cfg)" fd "snd (bassRange cfg)"]
    by (simp add: getFrequencyData_def)
  show "in_unit (midLevel (getFrequencyData cfg (Some fd)))"
    using a band_in_unit [of "fst (midRange cfg)" fd "snd (midRange cfg)"]
    by (simp add: getFrequencyData_def)
  show "in_unit (trebleLevel (getFrequencyData cfg (Some fd)))"
    using a band_in_unit [of "fst (trebleRange cfg)" fd "snd (trebleRange cfg)"]
    by (simp add: getFrequencyData_def)
  show "in_unit (overallLevel (getFrequencyData cfg (Some fd)))"
    using a overall_in_unit [of fd] by (simp add: getFrequencyData_def)
next
  assume "0 \<le> start \<and> start \<le> int j \<and> int j < en \<and> fd ! j \<le> v"
  then show "js_le (calculateBandLevel fd (start, en)) (calculateBandLevel (fd[j := v]) (start, en))"
    by (simp add: band_level_mono_update)
qed

theorem levels_bounded_monotone_witness:
  "in_unit (bassLevel (getFrequencyData default_analyzer_config (Some frame16)))
   \<and> in_unit (midLevel (getFrequencyData default_analyzer_config (Some frame16)))
   \<and> in_unit (trebleLevel (getFrequencyData default_analyzer_config (Some frame16)))
   \<and> in_unit (overallLevel (getFrequencyData default_analyzer_config (Some frame16)))
   \<and> js_le (calculateBandLevel frame16 (0, 10)) (calculateBandLevel (frame16[3 := 7]) (0, 10))"
  using levels_bounded_monotone [of frame16 default_analyzer_config 0 3 10 7]
  by (simp add: default_analyzer_config_def frame16_def)

section \<open>Facts about the quality controller\<close>

lemma indexOf_ge: "- 1 \<le> indexOf xs x"
  by (induction xs) (auto simp: Let_def)

lemma indexOf_nth: "distinct xs \<Longrightarrow> k < length xs \<Longrightarrow> indexOf xs (xs ! k) = int k"
proof (induction xs arbitrary: k)
  case Nil
  then show ?case by simp
next
  case (Cons y ys)
  show ?case
  proof (cases k)
    case 0
    then show ?thesis by simp
  next
    case (Suc j)
    then have "ys ! j \<in> set ys" "indexOf ys (ys ! j) = int j"
      using Cons by auto
    then show ?thesis
      using Suc Cons.prems by (auto simp: Let_def)
  qed
qed

lemma length_lodLevels: "length lodLevels = 5"
  by (simp add: lodLevels_def)

lemma distinct_lodLevels: "distinct lodLevels"
  by (simp add: lodLevels_def)

lemma tier_index_nth: "k < 5 \<Longrightarrow> currentLOD s = lodLevels ! k \<Longrightarrow> tier_index s = int k"
  by (simp add: tier_index_def indexOf_nth distinct_lodLevels length_lodLevels)

lemma fold_plus_sum_list: "fold (\<lambda>x acc. acc + x) xs (a::real) = a + sum_list xs"
  by (induction xs arbitrary: a) simp_all

lemma evaluate_cases:
  assumes k: "k < 5" "currentLOD s = lodLevels ! k"
    and len: "30 \<le> length (performanceHistory s)"
  shows "evaluateLODChange s =
     (if recent_mean (performanceHistory s) < targetFPS (lodLevels ! k) - 5 \<and> 0 < k
      then s\<lparr>currentLOD := lodLevels ! (k - 1), notified := notified s @ [lodLevels ! (k - 1)]\<rparr>
      else if recent_mean (performanceHistory s) > targetFPS (lodLevels ! k) + 3 \<and> k < 4
      then s\<lparr>currentLOD := lodLevels ! (k + 1), notified := notified s @ [lodLevels ! (k + 1)]\<rparr>
      else s)"
proof -
  have idx: "indexOf lodLevels (currentLOD s) = int k"
    using k by (simp add: indexOf_nth distinct_lodLevels length_lodLevels)
  have l30: "length (slice_last 30 (performanceHistory s)) = 30"
    using len by (simp add: slice_last_def)
  have avg: "fold (\<lambda>fps acc. acc + fps) (slice_last 30 (performanceHistory s)) 0
             / real (length (slice_last 30 (performanceHistory s)))
             = recent_mean (performanceHistory s)"
    unfolding l30 by (simp add: fold_plus_sum_list recent_mean_def slice_last_def)
  have dn: "0 < k \<Longrightarrow> nat (max 0 (int k - 1)) = k - 1" by simp
  have up: "k < 4 \<Longrightarrow> nat (min 4 (int k + 1)) = k + 1" by simp
  show ?thesis
    unfolding evaluateLODChange_def Let_def avg idx length_lodLevels
    using k(2) dn up by (auto simp: nat_add_distrib)
qed

lemma in_lodLevels_nth: "x \<in> set lodLevels \<Longrightarrow> \<exists>k<5. x = lodLevels ! k"
  using length_lodLevels by (metis in_set_conv_nth)

lemma lodLevels_nth_neq: "j < 5 \<Longrightarrow> k < 5 \<Longrightarrow> j \<noteq> k \<Longrightarrow> lodLevels ! j \<noteq> lodLevels ! k"
  using distinct_lodLevels length_lodLevels by (simp add: nth_eq_iff_index_eq)

lemma updatePerformance_history:
  "performanceHistory (updatePerformance s m) = pushed_history s (fps m)"
  by (simp add: updatePerformance_def pushed_history_def evaluateLODChange_def Let_def
        maxHistoryLength_def)

lemma updatePerformance_cases:
  assumes k: "k < 5" "currentLOD s = lodLevels ! k"
  shows "updatePerformance s m =
     (let h = pushed_history s (fps m); s' = s\<lparr>performanceHistory := h\<rparr>
      in if length h < 30 then s'
         else if recent_mean h < targetFPS (lodLevels ! k) - 5 \<and> 0 < k
         then s'\<lparr>currentLOD := lodLevels ! (k - 1), notified := notified s @ [lodLevels ! (k - 1)]\<rparr>
         else if recent_mean h > targetFPS (lodLevels ! k) + 3 \<and> k < 4
         then s'\<lparr>currentLOD := lodLevels ! (k + 1), notified := notified s @ [lodLevels ! (k + 1)]\<rparr>
         else s')"
proof -
  define h where "h = pushed_history s (fps m)"
  define s' where "s' = s\<lparr>performanceHistory := h\<rparr>"
  have up: "updatePerformance s m = (if 30 \<le> length h then evaluateLODChange s' else s')"
    by (simp add: updatePerformance_def pushed_history_def Let_def maxHistoryLength_def
          h_def s'_def)
  have k': "currentLOD s' = lodLevels ! k"
    using k by (simp add: s'_def)
  have ev: "30 \<le> length h \<Longrightarrow> evaluateLODChange s' =
     (if recent_mean h < targetFPS (lodLevels ! k) - 5 \<and> 0 < k
      then s'\<lparr>currentLOD := lodLevels ! (k - 1), notified := notified s @ [lodLevels ! (k - 1)]\<rparr>
      else if recent_mean h > targetFPS (lodLevels ! k) + 3 \<and> k < 4
      then s'\<lparr>currentLOD := lodLevels ! (k + 1), notified := notified s @ [lodLevels ! (k + 1)]\<rparr>
      else s')"
    using evaluate_cases [OF k(1) k', of ] by (simp add: s'_def)
  show ?thesis
    unfolding Let_def h_def [symmetric] s'_def [symmetric] up using ev by auto
qed

text \<open>
  Claim C1. One call of \<open>updatePerformance\<close> on a controller whose current level is one of
  the table: the sample is appended to the history; with fewer than 30 samples in the history
  nothing else happens; otherwise, with \<open>avg\<close> the mean of the 30 most recent samples and
  \<open>t\<close> the target of the current level, the index of the current level goes down by one
  exactly when \<open>avg < t - 5\<close> and the level is not the lowest, up by one exactly when
  \<open>avg > t + 3\<close> and the level is not the highest, and stays otherwise. The index never moves
  by more than one in a call.
\<close>

theorem updatePerformance_transition:
  assumes "currentLOD s \<in> set lodLevels"
  shows "let s' = updatePerformance s m;
             h = pushed_history s (fps m);
             avg = recent_mean h;
             t = targetFPS (currentLOD s);
             i = tier_index s;
             i' = tier_index s'
         in performanceHistory s' = h
            \<and> (length h < 30 \<longrightarrow> currentLOD s' = currentLOD s \<and> notified s' = notified s)
            \<and> (30 \<le> length h \<longrightarrow>
                  (i' = i - 1 \<longleftrightarrow> avg < t - 5 \<and> 0 < i)
                  \<and> (i' = i + 1 \<longleftrightarrow> avg > t + 3 \<and> i < 4)
                  \<and> (i' = i \<longleftrightarrow> \<not> (avg < t - 5 \<and> 0 < i) \<and> \<not> (avg > t + 3 \<and> i < 4)))
            \<and> \<bar>i' - i\<bar> \<le> 1
            \<and> 0 \<le> i' \<and> i' \<le> 4 \<and> currentLOD s' = lodLevels ! nat i'"
proof -
  obtain k where k: "k < 5" "currentLOD s = lodLevels ! k"
    using assms in_lodLevels_nth by blast
  have i: "tier_index s = int k"
    using k by (rule tier_index_nth)
  define h where "h = pushed_history s (fps m)"
  define s0 where "s0 = s\<lparr>performanceHistory := h\<rparr>"
  let ?down = "recent_mean h < targetFPS (lodLevels ! k) - 5 \<and> 0 < k"
  let ?up = "recent_mean h > targetFPS (lodLevels ! k) + 3 \<and> k < 4"
  have cases: "updatePerformance s m =
     (if length h < 30 then s0
      else if ?down then s0\<lparr>currentLOD := lodLevels ! (k - 1), notified := notified s @ [lodLevels ! (k - 1)]\<rparr>
      else if ?up then s0\<lparr>currentLOD := lodLevels ! (k + 1), notified := notified s @ [lodLevels ! (k + 1)]\<rparr>
      else s0)"
    using updatePerformance_cases [OF k, of m] by (simp add: Let_def h_def s0_def)
  have excl: "\<not> (?down \<and> ?up)" by auto
  consider (warm) "length h < 30" | (down) "30 \<le> length h" ?down
    | (up) "30 \<le> length h" "\<not> ?down" ?up | (stay) "30 \<le> length h" "\<not> ?down" "\<not> ?up"
    by linarith
  then show ?thesis
  proof cases
    case warm
    then have "updatePerformance s m = s0" using cases by simp
    then show ?thesis
      using warm i k by (simp add: Let_def h_def [symmetric] s0_def tier_index_def)
  next
    case down
    then have eq: "updatePerformance s m =
        s0\<lparr>currentLOD := lodLevels ! (k - 1), notified := notified s @ [lodLevels ! (k - 1)]\<rparr>"
      using cases by simp
    have "tier_index (updatePerformance s m) = int (k - 1)"
      using k down by (intro tier_index_nth) (simp_all add: eq)
    moreover have "nat (int k - 1) = k - 1" by simp
    ultimately show ?thesis
      using down i k eq by (simp add: Let_def h_def [symmetric] s0_def)
  next
    case up
    have d: "?down = False"
      using up by blast
    have eq: "updatePerformance s m =
        s0\<lparr>currentLOD := lodLevels ! (k + 1), notified := notified s @ [lodLevels ! (k + 1)]\<rparr>"
      using up(1,3) unfolding cases d by simp
    have "tier_index (updatePerformance s m) = int (k + 1)"
      using k up by (intro tier_index_nth) (simp_all add: eq)
    moreover have "nat (1 + int k) = Suc k" by simp
    ultimately show ?thesis
      using up i k eq by (simp add: Let_def h_def [symmetric] s0_def)
  next
    case stay
    have d: "?down = False" and u: "?up = False"
      using stay by blast+
    have eq: "updatePerformance s m = s0"
      using stay(1) unfolding cases d u by simp
    then have "tier_index (updatePerformance s m) = int k"
      using k by (intro tier_index_nth) (simp_all add: s0_def)
    then show ?thesis
      using stay i k eq by (simp add: Let_def h_def [symmetric] s0_def)
  qed
qed

lemma recent_mean_replicate: "30 \<le> j \<Longrightarrow> recent_mean (replicate j f) = f"
  by (simp add: recent_mean_def sum_list_replicate)

lemma pushed_history_replicate:
  "performanceHistory s = replicate j f \<Longrightarrow>
   pushed_history s f = replicate (if 60 \<le> j then j else j + 1) f"
  by (cases j) (simp_all add: pushed_history_def replicate_append_same)

lemma dead_band_step:
  assumes "currentLOD s \<in> set lodLevels"
    and "performanceHistory s = replicate j (targetFPS (currentLOD s) - 2)"
    and "fps m = targetFPS (currentLOD s) - 2"
  shows "updatePerformance s m =
           s\<lparr>performanceHistory :=
                replicate (if 60 \<le> j then j else j + 1) (targetFPS (currentLOD s) - 2)\<rparr>"
proof -
  obtain k where k: "k < 5" "currentLOD s = lodLevels ! k"
    using assms(1) in_lodLevels_nth by blast
  define j' where "j' = (if 60 \<le> j then j else j + 1)"
  have h: "pushed_history s (fps m) = replicate j' (targetFPS (lodLevels ! k) - 2)"
    using pushed_history_replicate [OF assms(2)] assms(3) k by (simp add: j'_def)
  have "30 \<le> j' \<Longrightarrow> recent_mean (replicate j' (targetFPS (lodLevels ! k) - 2))
          = targetFPS (lodLevels ! k) - 2"
    by (rule recent_mean_replicate)
  then show ?thesis
    using updatePerformance_cases [OF k, of m] h k(2)
    by (auto simp: Let_def j'_def [symmetric])
qed

lemma dead_band_feed:
  assumes "currentLOD s \<in> set lodLevels"
    and "performanceHistory s = replicate j (targetFPS (currentLOD s) - 2)"
    and "\<forall>m\<in>set ms. fps m = targetFPS (currentLOD s) - 2"
  shows "\<exists>j'. feed s ms = s\<lparr>performanceHistory := replicate j' (targetFPS (currentLOD s) - 2)\<rparr>"
  using assms
proof (induction ms arbitrary: s j)
  case Nil
  then show ?case
    by (intro exI [of _ j]) (simp add: feed_def)
next
  case (Cons m ms)
  define j1 where "j1 = (if 60 \<le> j then j else j + 1)"
  define s1 where "s1 = s\<lparr>performanceHistory := replicate j1 (targetFPS (currentLOD s) - 2)\<rparr>"
  have step: "updatePerformance s m = s1"
    using dead_band_step [OF Cons.prems(1,2)] Cons.prems(3) by (simp add: s1_def j1_def)
  have "\<exists>j'. feed s1 ms = s1\<lparr>performanceHistory := replicate j' (targetFPS (currentLOD s1) - 2)\<rparr>"
    using Cons.prems by (intro Cons.IH [of s1 j1]) (simp_all add: s1_def)
  then show ?case
    using step by (auto simp: feed_def s1_def)
qed

text \<open>
  Claim C4. From an empty history and any level of the table, a run of calls that all report
  the current level's target minus 2 never changes the level and never calls the callback:
  this holds after every call of the run, whatever its length (200 calls in particular).
\<close>

theorem dead_band_no_change:
  assumes "currentLOD s \<in> set lodLevels"
    and "performanceHistory s = []"
    and "\<forall>m\<in>set ms. fps m = targetFPS (currentLOD s) - 2"
  shows "\<forall>n\<le>length ms.
           currentLOD (feed s (take n ms)) = currentLOD s
           \<and> notified (feed s (take n ms)) = notified s"
proof (intro allI impI)
  fix n assume "n \<le> length ms"
  have "\<forall>m\<in>set (take n ms). fps m = targetFPS (currentLOD s) - 2"
    using assms(3) by (meson in_set_takeD)
  then obtain j' where
    "feed s (take n ms) = s\<lparr>performanceHistory := replicate j' (targetFPS (currentLOD s) - 2)\<rparr>"
    using dead_band_feed [OF assms(1), of 0 "take n ms"] assms(2) by auto
  then show "currentLOD (feed s (take n ms)) = currentLOD s
           \<and> notified (feed s (take n ms)) = notified s"
    by simp
qed

theorem dead_band_no_change_witness:
  "currentLOD new_PerformanceLOD \<in> set lodLevels
   \<and> performanceHistory new_PerformanceLOD = []
   \<and> set (replicate 200 (metrics_of_fps 53)) = {metrics_of_fps 53}
   \<and> fps (metrics_of_fps 53) = targetFPS (currentLOD new_PerformanceLOD) - 2
   \<and> currentLOD (feed new_PerformanceLOD (replicate 200 (metrics_of_fps 53)))
       = currentLOD new_PerformanceLOD
   \<and> notified (feed new_PerformanceLOD (replicate 200 (metrics_of_fps 53))) = []"
proof -
  let ?s = new_PerformanceLOD and ?ms = "replicate 200 (metrics_of_fps 53)"
  have h1: "currentLOD ?s \<in> set lodLevels"
    by (simp add: new_PerformanceLOD_def lodLevels_def)
  have h2: "performanceHistory ?s = []"
    by (simp add: new_PerformanceLOD_def)
  have h3: "\<forall>m\<in>set ?ms. fps m = targetFPS (currentLOD ?s) - 2"
    by (simp add: new_PerformanceLOD_def lodLevels_def metrics_of_fps_def)
  have "200 \<le> length ?ms \<longrightarrow>
          currentLOD (feed ?s (take 200 ?ms)) = currentLOD ?s
          \<and> notified (feed ?s (take 200 ?ms)) = notified ?s"
    using dead_band_no_change [OF h1 h2 h3] by blast
  moreover have "fps (metrics_of_fps 53) = targetFPS (currentLOD ?s) - 2"
    using h3 by simp
  ultimately show ?thesis
    using h1 h2 by (simp add: new_PerformanceLOD_def)
qed

theorem updatePerformance_transition_witness:
  "currentLOD (new_PerformanceLOD\<lparr>performanceHistory := replicate 29 30\<rparr>) \<in> set lodLevels
   \<and> tier_index (new_PerformanceLOD\<lparr>performanceHistory := replicate 29 30\<rparr>) = 2
   \<and> tier_index (updatePerformance (new_PerformanceLOD\<lparr>performanceHistory := replicate 29 30\<rparr>)
         (metrics_of_fps 30)) = 1"
proof -
  let ?s = "new_PerformanceLOD\<lparr>performanceHistory := replicate 29 30\<rparr>"
  have h1: "currentLOD ?s \<in> set lodLevels"
    by (simp add: new_PerformanceLOD_def lodLevels_def)
  have i: "tier_index ?s = 2"
    by (simp add: tier_index_def new_PerformanceLOD_def lodLevels_def)
  have h: "pushed_history ?s (fps (metrics_of_fps 30)) = replicate 30 30"
    using pushed_history_replicate [of ?s 29 30] by (simp add: metrics_of_fps_def)
  have t: "targetFPS (currentLOD ?s) = 55"
    by (simp add: new_PerformanceLOD_def lodLevels_def)
  show ?thesis
    using updatePerformance_transition [OF h1, of "metrics_of_fps 30"] h1
    unfolding Let_def h i t by (simp add: recent_mean_replicate)
qed

section \<open>The decision table of the device profiler\<close>

text \<open>
  Claim C9. The settings the profiler recommends follow the table from top to bottom, the
  first matching row winning: a low-end device (mobile with at most 2 cores and at most 2 GB,
  or a low GPU tier, or a texture size below 4096) gets the lowest row; otherwise a mobile
  device gets the second-lowest row, with pixel ratio 2 when the screen is high-density
  (device pixel ratio above 1.5) and 1 otherwise; otherwise a high GPU tier gets the highest
  row; every other device gets the middle row. The rows are ordered by particle count and
  mesh segments.
\<close>

theorem device_decision_table:
  "(low_end h \<longrightarrow> recommended h = lowest_tier)
   \<and> (\<not> low_end h \<and> ua_isMobile h \<longrightarrow>
        recommended h = second_lowest_tier (if devicePixelRatio h > 1.5 then 2 else 1))
   \<and> (\<not> low_end h \<and> \<not> ua_isMobile h \<and> host_gpuTier h = GpuHigh \<longrightarrow>
        recommended h = highest_tier (min (devicePixelRatio h) 2))
   \<and> (\<not> low_end h \<and> \<not> ua_isMobile h \<and> host_gpuTier h \<noteq> GpuHigh \<longrightarrow>
        recommended h = middle_tier (min (devicePixelRatio h) 2))
   \<and> qs_particleCount lowest_tier < qs_particleCount (second_lowest_tier a)
   \<and> qs_particleCount (second_lowest_tier a) < qs_particleCount (middle_tier b)
   \<and> qs_particleCount (middle_tier b) < qs_particleCount (highest_tier c)
   \<and> qs_geometrySegments lowest_tier < qs_geometrySegments (second_lowest_tier a)
   \<and> qs_geometrySegments (second_lowest_tier a) < qs_geometrySegments (middle_tier b)
   \<and> qs_geometrySegments (middle_tier b) < qs_geometrySegments (highest_tier c)"
  by (auto simp: recommended_def getQualitySettings_def new_DeviceCapabilities_def
        detectDeviceInfo_def determineQualitySettings_def low_end_def Let_def
        lowest_tier_def second_lowest_tier_def middle_tier_def highest_tier_def)

theorem device_decision_table_witness:
  "low_end (phone\<lparr>host_cores := 2, host_memoryGB := 2\<rparr>)
   \<and> recommended (phone\<lparr>host_cores := 2, host_memoryGB := 2\<rparr>) = lowest_tier
   \<and> \<not> low_end phone \<and> ua_isMobile phone
   \<and> recommended phone = second_lowest_tier 2
   \<and> recommended (phone\<lparr>ua_isMobile := False, host_gpuTier := GpuHigh\<rparr>) = highest_tier 2
   \<and> recommended (phone\<lparr>ua_isMobile := False\<rparr>) = middle_tier 2"
  using device_decision_table [of "phone\<lparr>host_cores := 2, host_memoryGB := 2\<rparr>"]
        device_decision_table [of phone]
        device_decision_table [of "phone\<lparr>ua_isMobile := False, host_gpuTier := GpuHigh\<rparr>"]
        device_decision_table [of "phone\<lparr>ua_isMobile := False\<rparr>"]
  by (simp add: low_end_def phone_def)

section \<open>Facts about the reactive scene\<close>

subsection \<open>Mesh morphing\<close>

lemma morph_loop_length:
  "length (morph_loop cfg a t orig i pos) = length pos"
proof (induction cfg a t orig i pos rule: morph_loop.induct)
  case (1 cfg a t orig i pos)
  then show ?case
    by (subst morph_loop.simps) simp
qed

lemma morph_loop_nth:
  "j < length pos \<Longrightarrow>
   morph_loop cfg a t orig i pos ! j =
     (if i \<le> j then multiplyScalar (orig ! j) (displacement cfg a t j (length pos))
      else pos ! j)"
proof (induction cfg a t orig i pos rule: morph_loop.induct)
  case (1 cfg a t orig i pos)
  show ?case
  proof (cases "i < length pos")
    case True
    let ?pos1 = "pos[i := multiplyScalar (orig ! i) (displacement cfg a t i (length pos))]"
    have "morph_loop cfg a t orig i pos ! j = morph_loop cfg a t orig (i + 1) ?pos1 ! j"
      using True by (subst morph_loop.simps) simp
    also have "\<dots> = (if i + 1 \<le> j
                      then multiplyScalar (orig ! j) (displacement cfg a t j (length ?pos1))
                      else ?pos1 ! j)"
      using "1.IH" [OF True] "1.prems" by simp
    also have "\<dots> = (if i \<le> j then multiplyScalar (orig ! j) (displacement cfg a t j (length pos))
                      else pos ! j)"
      using True "1.prems" by (cases "i = j") auto
    finally show ?thesis .
  next
    case False
    then show ?thesis
      using "1.prems" by (subst morph_loop.simps) simp
  qed
qed

lemma displacement_closed_form:
  "displacement cfg a t i n =
     1 + (if real i / real n < 0.33 then bass a * morphingIntensity cfg * 0.5
          else if real i / real n < 0.66 then mid a * morphingIntensity cfg * 0.3
          else treble a * morphingIntensity cfg * 0.4)
       + sin (2 * t + real i * 0.1) * overall a * 0.1"
  by (simp add: displacement_def Let_def mult.commute)

text \<open>
  Claim C2, as the code has it. For every vertex \<open>i\<close> of a mesh of \<open>n\<close> vertices, with base
  position \<open>b\<close> and normalized index \<open>u = i / n\<close>, one update writes \<open>b\<close> scaled by
  \<open>1 + regionTerm + sin (2 elapsed + 0.1 i) * overall * 0.1\<close>: the phase of the ripple is the
  vertex index times 0.1, not \<open>10 u\<close>. The region term is driven by exactly one band, chosen by
  \<open>u\<close> at the thresholds 0.33 and 0.66. The base positions and the size of the mesh do not change.
\<close>

theorem morphing_displacement:
  "length (originalVertices e) = length (meshPositions e) \<and> i < length (meshPositions e) \<longrightarrow>
     meshPositions (updateGeometryMorphing e a elapsed) ! i =
       multiplyScalar (originalVertices e ! i)
         (1 + region_term (config e) a (real i / real (length (meshPositions e)))
            + sin (2 * elapsed + real i * 0.1) * overall a * 0.1)
     \<and> originalVertices (updateGeometryMorphing e a elapsed) = originalVertices e
     \<and> length (meshPositions (updateGeometryMorphing e a elapsed)) = length (meshPositions e)"
  by (simp add: updateGeometryMorphing_def morph_loop_nth morph_loop_length
        displacement_closed_form region_term_def)

lemma sin_tenth_less_sin_one: "sin (1 / 10) < sin (1::real)"
proof -
  have "(1::real) \<le> pi / 2"
    using pi_ge_two by simp
  then have "- (pi / 2) \<le> 1 / 10" "(1 / 10 :: real) \<le> pi / 2" "- (pi / 2) \<le> (1::real)"
    by simp_all
  then show ?thesis
    using \<open>1 \<le> pi / 2\<close> by (simp add: sin_mono_less_eq)
qed

theorem morphing_displacement_witness:
  "meshPositions (updateGeometryMorphing ten_vertices loud 0) ! 1 = (1 + sin (1 / 10) / 10, 0, 0)
   \<and> meshPositions (updateGeometryMorphing ten_vertices loud 0) ! 9 = (1 + sin (9 / 10) / 10, 0, 0)"
  using morphing_displacement [of ten_vertices 1 loud 0]
        morphing_displacement [of ten_vertices 9 loud 0]
  by (simp add: ten_vertices_def loud_def region_term_def multiplyScalar_def)

text \<open>
  Claim C2 as stated fails on the ripple phase: on a mesh of ten vertices, vertex 1 has
  \<open>u = 1/10\<close>, the claim's phase at time 0 is \<open>10 u = 1\<close>, the source's is \<open>0.1\<close>, and
  \<open>sin 0.1 < sin 1\<close>.
\<close>

theorem ripple_phase_counterexample:
  "meshPositions (updateGeometryMorphing ten_vertices loud 0) ! 1
     \<noteq> multiplyScalar (originalVertices ten_vertices ! 1)
         (claimed_displacement (config ten_vertices) loud 0 (1 / 10))"
proof -
  have "meshPositions (updateGeometryMorphing ten_vertices loud 0) ! 1
          = (1 + sin (1 / 10) / 10, 0, 0)"
    by (simp add: updateGeometryMorphing_def morph_loop_nth displacement_closed_form
          ten_vertices_def loud_def multiplyScalar_def)
  moreover have "multiplyScalar (originalVertices ten_vertices ! 1)
         (claimed_displacement (config ten_vertices) loud 0 (1 / 10)) = (1 + sin 1 / 10, 0, 0)"
    by (simp add: claimed_displacement_def region_term_def ten_vertices_def loud_def
          multiplyScalar_def)
  ultimately show ?thesis
    using sin_tenth_less_sin_one by simp
qed

subsection \<open>Particles\<close>

lemma distance_nonneg: "0 \<le> distance p"
  by (cases p) (simp add: distance_def)

lemma distance_spherical: "distance (spherical r theta phi) = \<bar>r\<bar>"
proof -
  have "(r * sin phi * cos theta) * (r * sin phi * cos theta)
        + (r * sin phi * sin theta) * (r * sin phi * sin theta)
        + (r * cos phi) * (r * cos phi)
        = r\<^sup>2 * ((sin phi)\<^sup>2 * ((cos theta)\<^sup>2 + (sin theta)\<^sup>2) + (cos phi)\<^sup>2)"
    unfolding power2_eq_square by (simp only: algebra_simps)
  also have "\<dots> = r\<^sup>2"
    by simp
  finally have "sqrt ((r * sin phi * cos theta) * (r * sin phi * cos theta)
        + (r * sin phi * sin theta) * (r * sin phi * sin theta)
        + (r * cos phi) * (r * cos phi)) = \<bar>r\<bar>"
    by simp
  then show ?thesis
    unfolding distance_def spherical_def by (simp only: prod.case)
qed

lemma distance_reset:
  assumes "0 \<le> rnd k" "rnd k < 1"
  shows "distance (reset_position rnd k) = 3 + rnd k"
  using assms by (simp add: reset_position_def Let_def distance_spherical)

lemma distance_as_nested:
  "distance (x, y, z) = sqrt ((sqrt (x\<^sup>2 + y\<^sup>2))\<^sup>2 + z\<^sup>2)"
  by (simp add: distance_def power2_eq_square)

lemma distance_triangle:
  "distance (integrated p v) \<le> distance p + distance v"
proof -
  obtain x y z where p: "p = (x, y, z)" by (cases p)
  obtain a b c where v: "v = (a, b, c)" by (cases v)
  let ?m = "sqrt ((x + a)\<^sup>2 + (y + b)\<^sup>2)"
  let ?p2 = "sqrt (x\<^sup>2 + y\<^sup>2)" and ?v2 = "sqrt (a\<^sup>2 + b\<^sup>2)"
  have m: "?m \<le> ?p2 + ?v2"
    by (rule real_sqrt_sum_squares_triangle_ineq)
  have "0 \<le> ?m" by simp
  then have "?m\<^sup>2 \<le> (?p2 + ?v2)\<^sup>2"
    using m by (rule power_mono [rotated])
  then have "sqrt (?m\<^sup>2 + (z + c)\<^sup>2) \<le> sqrt ((?p2 + ?v2)\<^sup>2 + (z + c)\<^sup>2)"
    by simp
  also have "\<dots> \<le> sqrt (?p2\<^sup>2 + z\<^sup>2) + sqrt (?v2\<^sup>2 + c\<^sup>2)"
    by (rule real_sqrt_sum_squares_triangle_ineq)
  finally show ?thesis
    unfolding p v integrated_def by (simp add: distance_as_nested)
qed

lemma distance_negate: "distance (- x, - y, - z) = distance (x, y, z)"
  by (simp add: distance_def)

lemma distance_reverse_triangle:
  "distance p - distance v \<le> distance (integrated p v)"
proof -
  obtain x y z where p: "p = (x, y, z)" by (cases p)
  obtain a b c where v: "v = (a, b, c)" by (cases v)
  have "integrated (integrated p v) (- a, - b, - c) = p"
    by (simp add: integrated_def p v)
  then have "distance p \<le> distance (integrated p v) + distance (- a, - b, - c)"
    using distance_triangle [of "integrated p v" "(- a, - b, - c)"] by simp
  then show ?thesis
    by (simp add: distance_negate v)
qed

lemma particle_step_velocity:
  "snd (fst (particle_step a dt rnd k (p, v))) = forced_velocity a dt rnd k v"
  by (simp add: particle_step_def Let_def)

lemma particle_step_position:
  "fst (fst (particle_step a dt rnd k (p, v))) =
     (if distance (integrated p (forced_velocity a dt rnd k v)) > 8
      then reset_position rnd (k + 3)
      else integrated p (forced_velocity a dt rnd k v))"
  by (simp add: particle_step_def Let_def)

text \<open>What the loop leaves behind, particle by particle.\<close>

lemma particle_loop_spec:
  assumes "particle_loop a dt rnd n i (pos, vel, k) = (pos', vel', k')"
    and "length vel = length pos"
  shows "length pos' = length pos \<and> length vel' = length pos
         \<and> (\<forall>j<length pos.
              (j < i \<or> n \<le> j \<longrightarrow> pos' ! j = pos ! j \<and> vel' ! j = vel ! j)
              \<and> (i \<le> j \<and> j < n \<longrightarrow>
                   (\<exists>kj. (pos' ! j, vel' ! j) = fst (particle_step a dt rnd kj (pos ! j, vel ! j)))))"
  using assms
proof (induction a dt rnd n i "(pos, vel, k)" arbitrary: pos vel k rule: particle_loop.induct)
  case (1 a dt rnd n i pos vel k)
  show ?case
  proof (cases "i < n")
    case False
    then have "pos' = pos" "vel' = vel"
      using "1.prems"(1) by (subst (asm) particle_loop.simps, simp)+
    then show ?thesis
      using False "1.prems"(2) by auto
  next
    case True
    show ?thesis
    proof (cases "i < length pos")
      case inside: True
      obtain p1 v1 k1 where st: "particle_step a dt rnd k (pos ! i, vel ! i) = ((p1, v1), k1)"
        by (metis surj_pair)
      have rec: "particle_loop a dt rnd n (i + 1) (pos[i := p1], vel[i := v1], k1) = (pos', vel', k')"
        using "1.prems" True inside st by (subst (asm) particle_loop.simps) simp
      have len: "length (vel[i := v1]) = length (pos[i := p1])"
        using "1.prems"(2) by simp
      have in2: "i < length pos \<and> i < length vel"
        using inside "1.prems"(2) by simp
      have IH: "length pos' = length (pos[i := p1]) \<and> length vel' = length (pos[i := p1])
         \<and> (\<forall>j<length (pos[i := p1]).
              (j < i + 1 \<or> n \<le> j \<longrightarrow> pos' ! j = pos[i := p1] ! j \<and> vel' ! j = vel[i := v1] ! j)
              \<and> (i + 1 \<le> j \<and> j < n \<longrightarrow>
                   (\<exists>kj. (pos' ! j, vel' ! j)
                      = fst (particle_step a dt rnd kj (pos[i := p1] ! j, vel[i := v1] ! j)))))"
        by (rule "1.hyps"(1) [OF True in2 st [symmetric] refl rec len])
      show ?thesis
      proof (intro conjI allI impI)
        show "length pos' = length pos" "length vel' = length pos"
          using IH by simp_all
      next
        fix j assume j: "j < length pos" and c: "j < i \<or> n \<le> j"
        then have "j \<noteq> i" using True by auto
        then show "pos' ! j = pos ! j" "vel' ! j = vel ! j"
          using IH j c by auto
      next
        fix j assume j: "j < length pos" and c: "i \<le> j \<and> j < n"
        show "\<exists>kj. (pos' ! j, vel' ! j) = fst (particle_step a dt rnd kj (pos ! j, vel ! j))"
        proof (cases "j = i")
          case True
          then have "pos' ! j = p1" "vel' ! j = v1"
            using IH j "1.prems"(2) by auto
          then show ?thesis
            using st True by (intro exI [of _ k]) simp
        next
          case False
          then have "i + 1 \<le> j \<and> j < n" using c by simp
          then show ?thesis
            using IH j False by auto
        qed
      qed
    next
      case outside: False
      have rec: "particle_loop a dt rnd n (i + 1) (pos, vel, k + 3) = (pos', vel', k')"
        using "1.prems" True outside by (subst (asm) particle_loop.simps) simp
      have nin: "\<not> (i < length pos \<and> i < length vel)"
        using outside by simp
      have IH: "length pos' = length pos \<and> length vel' = length pos
         \<and> (\<forall>j<length pos.
              (j < i + 1 \<or> n \<le> j \<longrightarrow> pos' ! j = pos ! j \<and> vel' ! j = vel ! j)
              \<and> (i + 1 \<le> j \<and> j < n \<longrightarrow>
                   (\<exists>kj. (pos' ! j, vel' ! j) = fst (particle_step a dt rnd kj (pos ! j, vel ! j)))))"
        by (rule "1.hyps"(2) [OF True nin rec "1.prems"(2)])
      show ?thesis
        using IH outside by auto
    qed
  qed
qed

lemma distance_on_axis: "distance (x, 0, 0) = \<bar>x\<bar>"
  by (simp add: distance_def)

lemma updateParticleSystem_particle:
  assumes len: "length (particleVelocities e) = length (particlePositions e)"
    and i: "i < length (particlePositions e)"
  shows "length (particlePositions (fst (updateParticleSystem e a dt rnd k0)))
           = length (particlePositions e)
         \<and> (getParticleCount e \<le> i \<longrightarrow>
              particlePositions (fst (updateParticleSystem e a dt rnd k0)) ! i
                = particlePositions e ! i)
         \<and> (i < getParticleCount e \<longrightarrow>
              (\<exists>k. particleVelocities (fst (updateParticleSystem e a dt rnd k0)) ! i
                     = forced_velocity a dt rnd k (particleVelocities e ! i)
                   \<and> particlePositions (fst (updateParticleSystem e a dt rnd k0)) ! i
                     = (if distance (integrated (particlePositions e ! i)
                              (forced_velocity a dt rnd k (particleVelocities e ! i))) > 8
                        then reset_position rnd (k + 3)
                        else integrated (particlePositions e ! i)
                               (forced_velocity a dt rnd k (particleVelocities e ! i)))))"
proof -
  obtain pos' vel' k' where loop:
    "particle_loop a dt rnd (cfg_particleCount (config e)) 0
       (particlePositions e, particleVelocities e, k0) = (pos', vel', k')"
    by (metis prod_cases3)
  have e': "particlePositions (fst (updateParticleSystem e a dt rnd k0)) = pos'"
    "particleVelocities (fst (updateParticleSystem e a dt rnd k0)) = vel'"
    by (simp_all add: updateParticleSystem_def loop)
  note spec = particle_loop_spec [OF loop len]
  have at_i: "(0 > i \<or> cfg_particleCount (config e) \<le> i \<longrightarrow>
                 pos' ! i = particlePositions e ! i \<and> vel' ! i = particleVelocities e ! i)
              \<and> (0 \<le> i \<and> i < cfg_particleCount (config e) \<longrightarrow>
                   (\<exists>kj. (pos' ! i, vel' ! i) = fst (particle_step a dt rnd kj
                      (particlePositions e ! i, particleVelocities e ! i))))"
    using spec i by blast
  have unchanged: "getParticleCount e \<le> i \<Longrightarrow> pos' ! i = particlePositions e ! i"
    using at_i by (simp add: getParticleCount_def)
  have moved: "\<exists>k. vel' ! i = forced_velocity a dt rnd k (particleVelocities e ! i)
         \<and> pos' ! i = (if distance (integrated (particlePositions e ! i)
                              (forced_velocity a dt rnd k (particleVelocities e ! i))) > 8
                        then reset_position rnd (k + 3)
                        else integrated (particlePositions e ! i)
                               (forced_velocity a dt rnd k (particleVelocities e ! i)))"
    if inside: "i < getParticleCount e"
  proof -
    obtain kj where kj: "(pos' ! i, vel' ! i)
        = fst (particle_step a dt rnd kj (particlePositions e ! i, particleVelocities e ! i))"
      using at_i inside unfolding getParticleCount_def by blast
    have "vel' ! i = snd (fst (particle_step a dt rnd kj (particlePositions e ! i, particleVelocities e ! i)))"
      "pos' ! i = fst (fst (particle_step a dt rnd kj (particlePositions e ! i, particleVelocities e ! i)))"
      using kj by (metis snd_conv, metis fst_conv)
    then show ?thesis
      unfolding particle_step_velocity particle_step_position by (intro exI [of _ kj]) simp
  qed
  show ?thesis
    unfolding e' using spec unchanged moved by blast
qed

text \<open>
  Claim C3, as the code has it. Draws lie in \<open>[0, 1)\<close>. For every particle the loop reaches,
  the new velocity is the forced and damped velocity, whether or not the particle is reset.
  If the position after integration is farther than 8 from the origin, the particle is put
  at the point of radius \<open>3 + U\<^sub>1\<close>, angle \<open>theta = 2 \<pi> U\<^sub>2\<close> in \<open>[0, 2 \<pi>)\<close> and
  \<open>phi = arccos (2 U\<^sub>3 - 1)\<close>, for three draws of its own, and its distance from the origin is
  then in \<open>[3, 4)\<close>; otherwise it stays at the integrated position. A particle at distance 10
  whose new velocity is shorter than 2 is farther than 8 after integration, so it ends in
  \<open>[3, 4)\<close>.
\<close>

theorem particle_teleport:
  "(\<forall>k. 0 \<le> rnd k \<and> rnd k < 1)
   \<and> length (particleVelocities e) = length (particlePositions e)
   \<and> i < getParticleCount e \<and> i < length (particlePositions e) \<longrightarrow>
   (\<exists>k. let v' = forced_velocity a dt rnd k (particleVelocities e ! i);
            q = integrated (particlePositions e ! i) v';
            e' = fst (updateParticleSystem e a dt rnd k0)
        in particleVelocities e' ! i = v'
           \<and> (distance q > 8 \<longrightarrow>
                particlePositions e' ! i
                  = spherical (3 + rnd (k + 3)) (rnd (k + 4) * pi * 2) (arccos (2 * rnd (k + 5) - 1))
                \<and> 0 \<le> rnd (k + 4) * pi * 2 \<and> rnd (k + 4) * pi * 2 < 2 * pi
                \<and> 3 \<le> distance (particlePositions e' ! i)
                \<and> distance (particlePositions e' ! i) < 4)
           \<and> (distance q \<le> 8 \<longrightarrow> particlePositions e' ! i = q)
           \<and> (distance (particlePositions e ! i) = 10 \<and> distance v' < 2 \<longrightarrow>
                3 \<le> distance (particlePositions e' ! i)
                \<and> distance (particlePositions e' ! i) < 4))"
proof (intro impI)
  assume a: "(\<forall>k. 0 \<le> rnd k \<and> rnd k < 1)
   \<and> length (particleVelocities e) = length (particlePositions e)
   \<and> i < getParticleCount e \<and> i < length (particlePositions e)"
  then have rnd: "\<And>k. 0 \<le> rnd k" "\<And>k. rnd k < 1"
    and len: "length (particleVelocities e) = length (particlePositions e)"
    and i: "i < length (particlePositions e)" and n: "i < getParticleCount e"
    by auto
  let ?e' = "fst (updateParticleSystem e a dt rnd k0)"
  obtain k where vel: "particleVelocities ?e' ! i = forced_velocity a dt rnd k (particleVelocities e ! i)"
    and pos: "particlePositions ?e' ! i
                     = (if distance (integrated (particlePositions e ! i)
                              (forced_velocity a dt rnd k (particleVelocities e ! i))) > 8
                        then reset_position rnd (k + 3)
                        else integrated (particlePositions e ! i)
                               (forced_velocity a dt rnd k (particleVelocities e ! i)))"
    using updateParticleSystem_particle [OF len i, of a dt rnd k0] n by blast
  define v' where "v' = forced_velocity a dt rnd k (particleVelocities e ! i)"
  define q where "q = integrated (particlePositions e ! i) v'"
  have reset: "reset_position rnd (k + 3)
      = spherical (3 + rnd (k + 3)) (rnd (k + 4) * pi * 2) (arccos (2 * rnd (k + 5) - 1))"
    by (simp add: reset_position_def Let_def add.commute add.left_commute)
  have dreset: "distance (reset_position rnd (k + 3)) = 3 + rnd (k + 3)"
    using rnd by (rule distance_reset)
  have theta: "0 \<le> rnd (k + 4) * pi * 2" "rnd (k + 4) * pi * 2 < 2 * pi"
    using rnd [of "k + 4"] by simp_all
  have far: "distance q > 8" if "distance (particlePositions e ! i) = 10" "distance v' < 2"
    using distance_reverse_triangle [of "particlePositions e ! i" v'] that by (simp add: q_def)
  have tele: "distance q > 8 \<Longrightarrow> particlePositions ?e' ! i = reset_position rnd (k + 3)"
    and stay: "distance q \<le> 8 \<Longrightarrow> particlePositions ?e' ! i = q"
    using pos by (simp_all add: q_def v'_def)
  have range: "distance q > 8 \<Longrightarrow>
      3 \<le> distance (particlePositions ?e' ! i) \<and> distance (particlePositions ?e' ! i) < 4"
    using tele dreset rnd [of "k + 3"] by simp
  show "\<exists>k. let v' = forced_velocity a dt rnd k (particleVelocities e ! i);
            q = integrated (particlePositions e ! i) v';
            e' = fst (updateParticleSystem e a dt rnd k0)
        in particleVelocities e' ! i = v'
           \<and> (distance q > 8 \<longrightarrow>
                particlePositions e' ! i
                  = spherical (3 + rnd (k + 3)) (rnd (k + 4) * pi * 2) (arccos (2 * rnd (k + 5) - 1))
                \<and> 0 \<le> rnd (k + 4) * pi * 2 \<and> rnd (k + 4) * pi * 2 < 2 * pi
                \<and> 3 \<le> distance (particlePositions e' ! i)
                \<and> distance (particlePositions e' ! i) < 4)
           \<and> (distance q \<le> 8 \<longrightarrow> particlePositions e' ! i = q)
           \<and> (distance (particlePositions e ! i) = 10 \<and> distance v' < 2 \<longrightarrow>
                3 \<le> distance (particlePositions e' ! i)
                \<and> distance (particlePositions e' ! i) < 4)"
    unfolding Let_def v'_def [symmetric] q_def [symmetric]
    using vel tele stay range far theta reset
    by (intro exI [of _ k]) (simp add: v'_def q_def)
qed

lemma draws_half_range: "\<forall>k. 0 \<le> draws_half k \<and> draws_half k < 1"
  by (simp add: draws_half_def)

lemma forced_velocity_silence: "forced_velocity silence dt rnd k (vx, vy, vz) = (vx * 0.99, vy * 0.99, vz * 0.99)"
  by (simp add: forced_velocity_def silence_def)

theorem particle_teleport_witness:
  "distance (particlePositions (one_particle (10, 0, 0) (0, 0, 0)) ! 0) = 10
   \<and> 3 \<le> distance (particlePositions
          (fst (updateParticleSystem (one_particle (10, 0, 0) (0, 0, 0)) silence (1 / 60) draws_half 0)) ! 0)
   \<and> distance (particlePositions
          (fst (updateParticleSystem (one_particle (10, 0, 0) (0, 0, 0)) silence (1 / 60) draws_half 0)) ! 0) < 4"
proof -
  let ?e = "one_particle (10, 0, 0) (0, 0, 0)"
  have hyp: "(\<forall>k. 0 \<le> draws_half k \<and> draws_half k < 1)
     \<and> length (particleVelocities ?e) = length (particlePositions ?e)
     \<and> 0 < getParticleCount ?e \<and> 0 < length (particlePositions ?e)"
    by (simp add: draws_half_def one_particle_def getParticleCount_def)
  have d10: "distance (particlePositions ?e ! 0) = 10"
    by (simp add: one_particle_def distance_on_axis)
  have slow: "distance (forced_velocity silence (1 / 60) draws_half k (particleVelocities ?e ! 0)) < 2" for k
    by (simp add: one_particle_def forced_velocity_silence distance_on_axis)
  show ?thesis
    using particle_teleport [of draws_half ?e 0 silence "1 / 60" 0] hyp d10 slow
    by (auto simp: Let_def)
qed

text \<open>
  Claim C3 as stated fails for a fast particle: at \<open>(10, 0, 0)\<close> with velocity
  \<open>(-3, 0, 0)\<close> and a silent frame, the damped velocity is \<open>(-2.97, 0, 0)\<close>, the integrated
  position \<open>(7.03, 0, 0)\<close> is inside the boundary, and the particle is not reset.
\<close>

theorem fast_particle_counterexample:
  "distance (particlePositions (one_particle (10, 0, 0) (- 3, 0, 0)) ! 0) = 10
   \<and> particlePositions
        (fst (updateParticleSystem (one_particle (10, 0, 0) (- 3, 0, 0)) silence (1 / 60) draws_half 0)) ! 0
       = (703 / 100, 0, 0)
   \<and> \<not> (3 \<le> distance (particlePositions
          (fst (updateParticleSystem (one_particle (10, 0, 0) (- 3, 0, 0)) silence (1 / 60) draws_half 0)) ! 0)
        \<and> distance (particlePositions
          (fst (updateParticleSystem (one_particle (10, 0, 0) (- 3, 0, 0)) silence (1 / 60) draws_half 0)) ! 0) < 4)"
proof -
  let ?e = "one_particle (10, 0, 0) (- 3, 0, 0)"
  have step: "particle_step silence (1 / 60) draws_half 0 ((10, 0, 0), (- 3, 0, 0))
                = (((703 / 100, 0, 0), (- 297 / 100, 0, 0)), 3)"
    by (simp add: particle_step_def forced_velocity_silence integrated_def distance_on_axis Let_def)
  have "particle_loop silence (1 / 60) draws_half 1 0 ([(10, 0, 0)], [(- 3, 0, 0)], 0)
          = ([(703 / 100, 0, 0)], [(- 297 / 100, 0, 0)], 3)"
    by (subst particle_loop.simps, simp add: step, subst particle_loop.simps, simp)
  then have "particlePositions (fst (updateParticleSystem ?e silence (1 / 60) draws_half 0)) ! 0
               = (703 / 100, 0, 0)"
    by (simp add: updateParticleSystem_def one_particle_def)
  moreover have "distance (particlePositions ?e ! 0) = 10"
    by (simp add: one_particle_def distance_on_axis)
  ultimately show ?thesis
    by (simp add: distance_on_axis)
qed

text \<open>
  Claim C10. Draws lie in \<open>[0, 1)\<close>. After a particle update the buffer has its old size; every
  particle the loop reaches (index below the particle count) is at distance at most 8 from the
  origin: either its integrated position was farther than 8 and it now lies at a distance below
  4, or it is at its integrated position, which is at most 8 away. A particle the loop does not
  reach keeps its position.
\<close>

theorem particles_stay_in_range:
  "(\<forall>k. 0 \<le> rnd k \<and> rnd k < 1)
   \<and> length (particleVelocities e) = length (particlePositions e)
   \<and> i < length (particlePositions e) \<longrightarrow>
   (let e' = fst (updateParticleSystem e a dt rnd k0)
    in length (particlePositions e') = length (particlePositions e)
       \<and> (getParticleCount e \<le> i \<longrightarrow> particlePositions e' ! i = particlePositions e ! i)
       \<and> (i < getParticleCount e \<longrightarrow>
            distance (particlePositions e' ! i) \<le> 8
            \<and> (\<exists>k. let q = integrated (particlePositions e ! i)
                              (forced_velocity a dt rnd k (particleVelocities e ! i))
                    in (distance q > 8 \<longrightarrow> distance (particlePositions e' ! i) < 4)
                       \<and> (distance q \<le> 8 \<longrightarrow> particlePositions e' ! i = q))))"
proof (intro impI)
  assume a: "(\<forall>k. 0 \<le> rnd k \<and> rnd k < 1)
   \<and> length (particleVelocities e) = length (particlePositions e)
   \<and> i < length (particlePositions e)"
  then have rnd: "\<And>k. 0 \<le> rnd k" "\<And>k. rnd k < 1"
    and len: "length (particleVelocities e) = length (particlePositions e)"
    and i: "i < length (particlePositions e)"
    by auto
  let ?e' = "fst (updateParticleSystem e a dt rnd k0)"
  note part = updateParticleSystem_particle [OF len i, of a dt rnd k0]
  have moved: "distance (particlePositions ?e' ! i) \<le> 8
            \<and> (\<exists>k. let q = integrated (particlePositions e ! i)
                              (forced_velocity a dt rnd k (particleVelocities e ! i))
                    in (distance q > 8 \<longrightarrow> distance (particlePositions ?e' ! i) < 4)
                       \<and> (distance q \<le> 8 \<longrightarrow> particlePositions ?e' ! i = q))"
    if inside: "i < getParticleCount e"
  proof -
    obtain k where pos: "particlePositions ?e' ! i
                     = (if distance (integrated (particlePositions e ! i)
                              (forced_velocity a dt rnd k (particleVelocities e ! i))) > 8
                        then reset_position rnd (k + 3)
                        else integrated (particlePositions e ! i)
                               (forced_velocity a dt rnd k (particleVelocities e ! i)))"
      using part inside by blast
    define q where "q = integrated (particlePositions e ! i)
                              (forced_velocity a dt rnd k (particleVelocities e ! i))"
    have dreset: "distance (reset_position rnd (k + 3)) = 3 + rnd (k + 3)"
      using rnd by (rule distance_reset)
    have tele: "distance q > 8 \<Longrightarrow> distance (particlePositions ?e' ! i) < 4"
      using pos dreset rnd(2) [of "k + 3"] by (simp add: q_def)
    have stay: "distance q \<le> 8 \<Longrightarrow> particlePositions ?e' ! i = q"
      using pos by (simp add: q_def)
    have "distance (particlePositions ?e' ! i) \<le> 8"
      using tele stay by (cases "distance q > 8") auto
    moreover have "\<exists>k. let q = integrated (particlePositions e ! i)
                              (forced_velocity a dt rnd k (particleVelocities e ! i))
                    in (distance q > 8 \<longrightarrow> distance (particlePositions ?e' ! i) < 4)
                       \<and> (distance q \<le> 8 \<longrightarrow> particlePositions ?e' ! i = q)"
      using tele stay unfolding q_def Let_def by (intro exI [of _ k]) blast
    ultimately show ?thesis by blast
  qed
  show "let e' = fst (updateParticleSystem e a dt rnd k0)
    in length (particlePositions e') = length (particlePositions e)
       \<and> (getParticleCount e \<le> i \<longrightarrow> particlePositions e' ! i = particlePositions e ! i)
       \<and> (i < getParticleCount e \<longrightarrow>
            distance (particlePositions e' ! i) \<le> 8
            \<and> (\<exists>k. let q = integrated (particlePositions e ! i)
                              (forced_velocity a dt rnd k (particleVelocities e ! i))
                    in (distance q > 8 \<longrightarrow> distance (particlePositions e' ! i) < 4)
                       \<and> (distance q \<le> 8 \<longrightarrow> particlePositions e' ! i = q)))"
    unfolding Let_def using part moved unfolding Let_def by blast
qed

theorem particles_stay_in_range_witness:
  "length (particlePositions scene1000) = 1000
   \<and> getParticleCount scene1000 = 1000
   \<and> distance (particlePositions
        (fst (updateParticleSystem scene1000 silence (1 / 60) draws_half 0)) ! 999) \<le> 8"
proof -
  have len: "length (particlePositions scene1000) = 1000" "length (particleVelocities scene1000) = 1000"
    and n: "getParticleCount scene1000 = 1000"
    by (simp_all add: scene1000_def new_VisualizerEngine_def setupParticleSystem_def
          setupMainGeometry_def Let_def spread_def no_changes_def middle_tier_def
          getParticleCount_def)
  show ?thesis
    using particles_stay_in_range [of draws_half scene1000 999 silence "1 / 60" 0]
      draws_half_range len n
    by (simp add: Let_def)
qed

lemma particle_loop_lengths:
  "particle_loop a dt rnd n i (pos, vel, k) = (pos', vel', k') \<Longrightarrow>
   length pos' = length pos \<and> length vel' = length vel"
proof (induction a dt rnd n i "(pos, vel, k)" arbitrary: pos vel k rule: particle_loop.induct)
  case (1 a dt rnd n i pos vel k)
  show ?case
  proof (cases "i < n")
    case False
    then show ?thesis
      using "1.prems" by (subst (asm) particle_loop.simps) simp
  next
    case True
    show ?thesis
    proof (cases "i < length pos \<and> i < length vel")
      case inside: True
      obtain p1 v1 k1 where st: "particle_step a dt rnd k (pos ! i, vel ! i) = ((p1, v1), k1)"
        by (metis surj_pair)
      have rec: "particle_loop a dt rnd n (i + 1) (pos[i := p1], vel[i := v1], k1) = (pos', vel', k')"
        using "1.prems" True inside st by (subst (asm) particle_loop.simps) simp
      show ?thesis
        using "1.hyps"(1) [OF True inside st [symmetric] refl rec] by simp
    next
      case outside: False
      have rec: "particle_loop a dt rnd n (i + 1) (pos, vel, k + 3) = (pos', vel', k')"
        using "1.prems" True outside by (subst (asm) particle_loop.simps) simp
      show ?thesis
        using "1.hyps"(2) [OF True outside rec] by simp
    qed
  qed
qed

lemma updateParticleSystem_sizes:
  "buffer_sizes (fst (updateParticleSystem e a dt rnd k)) = buffer_sizes e"
proof -
  obtain pos' vel' k' where loop:
    "particle_loop a dt rnd (cfg_particleCount (config e)) 0
       (particlePositions e, particleVelocities e, k) = (pos', vel', k')"
    by (metis prod_cases3)
  show ?thesis
    using particle_loop_lengths [OF loop]
    by (simp add: updateParticleSystem_def loop buffer_sizes_def)
qed

lemma updateGeometryMorphing_sizes:
  "buffer_sizes (updateGeometryMorphing e a t) = buffer_sizes e"
  by (simp add: updateGeometryMorphing_def buffer_sizes_def morph_loop_length)

lemma updateVisualization_sizes:
  "buffer_sizes (fst (updateVisualization e a dt t rnd k)) = buffer_sizes e"
  by (simp add: updateVisualization_def updateParticleSystem_sizes updateGeometryMorphing_sizes)

text \<open>
  Claim C5, as the code has it. The engine has one way to take new settings,
  \<open>updateConfig\<close>, and it replaces the configuration only: \<open>getParticleCount\<close> then returns
  the new particle count, while the particle buffers, the mesh and its base positions are the
  ones from before. No operation of a constructed engine changes the size of a buffer; the
  particle buffers get their size, the particle count of the configuration, in
  \<open>setupParticleSystem\<close> at construction.
\<close>

theorem updateConfig_keeps_buffers:
  "getParticleCount (updateConfig e (changes\<lparr>set_particleCount := Some n\<rparr>)) = n
   \<and> particlePositions (updateConfig e changes) = particlePositions e
   \<and> particleVelocities (updateConfig e changes) = particleVelocities e
   \<and> meshPositions (updateConfig e changes) = meshPositions e
   \<and> originalVertices (updateConfig e changes) = originalVertices e
   \<and> getVertexCount (updateConfig e changes) = getVertexCount e
   \<and> buffer_sizes (updateConfig e changes) = buffer_sizes e
   \<and> buffer_sizes (fst (updateVisualization e a dt t rnd k)) = buffer_sizes e
   \<and> buffer_sizes (toggleWireframe e) = buffer_sizes e
   \<and> buffer_sizes (startAnimation e) = buffer_sizes e
   \<and> buffer_sizes (stopAnimation e) = buffer_sizes e
   \<and> length (particlePositions (fst (setupParticleSystem e rnd k))) = cfg_particleCount (config e)
   \<and> length (particleVelocities (fst (setupParticleSystem e rnd k))) = cfg_particleCount (config e)"
  by (simp add: updateVisualization_sizes)
     (simp add: updateConfig_def getParticleCount_def getVertexCount_def spread_def
        buffer_sizes_def toggleWireframe_def startAnimation_def stopAnimation_def
        setupParticleSystem_def Let_def)

lemma scene1000_sizes:
  "length (particlePositions scene1000) = 1000" "length (particleVelocities scene1000) = 1000"
  "getParticleCount scene1000 = 1000"
  by (simp_all add: scene1000_def new_VisualizerEngine_def setupParticleSystem_def
        setupMainGeometry_def Let_def spread_def no_changes_def middle_tier_def
        getParticleCount_def)

theorem updateConfig_keeps_buffers_witness:
  "getParticleCount (updateConfig scene1000 tier50) = 50
   \<and> particlePositions (updateConfig scene1000 tier50) = particlePositions scene1000
   \<and> buffer_sizes (updateConfig scene1000 tier50) = buffer_sizes scene1000"
  using updateConfig_keeps_buffers [where e = scene1000 and changes = tier50 and n = 50]
  by (simp add: tier50_def no_changes_def)

text \<open>
  Claim C5 as stated fails: after a tier of 50 particles is applied to the scene of 1000
  particles, \<open>getParticleCount\<close> returns 50 and both particle buffers still hold 1000
  particles.
\<close>

theorem no_reallocation_counterexample:
  "getParticleCount scene1000 = 1000
   \<and> length (particlePositions scene1000) = 1000
   \<and> getParticleCount (updateConfig scene1000 tier50) = 50
   \<and> length (particlePositions (updateConfig scene1000 tier50)) = 1000
   \<and> length (particleVelocities (updateConfig scene1000 tier50)) = 1000
   \<and> length (particlePositions (updateConfig scene1000 tier50)) \<noteq> 50
   \<and> getVertexCount (updateConfig scene1000 tier50) = getVertexCount scene1000"
  by (simp add: scene1000_sizes)
     (simp add: updateConfig_def getParticleCount_def getVertexCount_def spread_def
        tier50_def no_changes_def scene1000_sizes)
end
